theory Spec2Isabelle
  imports Main "HOL-Library.Sublist" "HOL-Library.Word"
begin

section \<open>Python values the program works with\<close>

text \<open>
  Exceptions are values. Only the class and the message matter to the program:
  every handler formats the caught exception with \<open>f'{err}'\<close>.
\<close>

datatype exn =
    ValueError string
  | NameError string
  | KeyError string
  | UnicodeDecodeError string
  | OtherException string

fun str_exn :: "exn \<Rightarrow> string" where
  "str_exn (ValueError m) = m"
| "str_exn (NameError m) = m"
| "str_exn (KeyError m) = m"
| "str_exn (UnicodeDecodeError m) = m"
| "str_exn (OtherException m) = m"

text \<open>
  The module is run as a script (the scheduler loop sits under
  \<open>if __name__ == "__main__"\<close>), so \<open>__name__\<close> is \<open>__main__\<close> in every message.
\<close>

definition this_module :: string where
  "this_module = ''__main__''"

text \<open>The root logger: every call is recorded with its level, in call order.\<close>

datatype level = DEBUG | INFO | ERROR

type_synonym log = "(level \<times> string) list"

subsection \<open>Live threads and their string rendering\<close>

text \<open>
  \<open>threading.enumerate()\<close> returns the list of live thread objects. The program
  never looks at the objects; it only searches \<open>str(threading.enumerate())\<close>, the
  rendering of a Python list of \<open>Thread.__repr__\<close> results:
  \<open>[<_MainThread(MainThread, started 140)>, <Thread(web_thread, started daemon 141)>]\<close>.
\<close>

record thread =
  t_class :: string
  t_name :: string
  t_daemon :: bool
  t_ident :: "nat option"

function str_nat :: "nat \<Rightarrow> string" where
  "str_nat n =
     (if n < 10 then [char_of (48 + n)]
      else str_nat (n div 10) @ [char_of (48 + n mod 10)])"
  by pat_completeness auto
termination
  by (relation "measure (\<lambda>n. n)") auto

declare str_nat.simps [simp del]

definition repr_thread :: "thread \<Rightarrow> string" where
  "repr_thread t =
     ''<'' @ t_class t @ ''('' @ t_name t @ '', '' @
     (''started'' @ (if t_daemon t then '' daemon'' else '''') @
      (case t_ident t of None \<Rightarrow> '''' | Some i \<Rightarrow> '' '' @ str_nat i)) @ '')>''"

fun join_comma :: "string list \<Rightarrow> string" where
  "join_comma [] = ''''"
| "join_comma [x] = x"
| "join_comma (x # y # ys) = x @ '', '' @ join_comma (y # ys)"

definition str_threads :: "thread list \<Rightarrow> string" where
  "str_threads ts = ''['' @ join_comma (map repr_thread ts) @ '']''"

text \<open>Python's \<open>needle in haystack\<close> on strings is the substring test.\<close>

definition py_in :: "string \<Rightarrow> string \<Rightarrow> bool" where
  "py_in needle haystack = sublist needle haystack"

section \<open>create_docker_log_threads\<close>

text \<open>
  \<open>container_name.replace(" ", "_")\<close> with one-character arguments rewrites every
  space, and the thread name is \<open>f'{container_name}_thread'\<close>.
\<close>

definition replace_spaces :: "string \<Rightarrow> string" where
  "replace_spaces s = map (\<lambda>c. if c = CHR '' '' then CHR ''_'' else c) s"

definition thread_name_of :: "string \<Rightarrow> string" where
  "thread_name_of container_name = replace_spaces container_name @ ''_thread''"

text \<open>
  What the function reads and changes outside itself: the live threads and the
  root logger. Both survive an exception, so they are returned next to the outcome.
\<close>

record world =
  live :: "thread list"
  root_log :: log

definition log_call :: "level \<Rightarrow> string \<Rightarrow> world \<Rightarrow> world" where
  "log_call lv msg w = w\<lparr>root_log := root_log w @ [(lv, msg)]\<rparr>"

text \<open>
  \<open>start_function_thread\<close> belongs to the ictools library and is a parameter here.
  It is given the container name and logger bound into \<open>get_docker_log\<close>, the thread
  name and the threads alive at the call; it answers with the exception it raised, if
  any, and the threads alive once control is back in the caller.
\<close>

type_synonym 'lg starter =
  "string \<Rightarrow> 'lg \<Rightarrow> string \<Rightarrow> thread list \<Rightarrow> exn option \<times> thread list"

text \<open>One tracker entry is a list holding one dictionary, as the source appends it.\<close>

type_synonym status_dict = "(string \<times> string) list"
type_synonym tracker = "status_dict list list"

definition status_entry :: "string \<Rightarrow> string \<Rightarrow> status_dict list" where
  "status_entry status container_name =
     [[(''Status'', status), (''container_name'', container_name)]]"

text \<open>The body of the loop over \<open>docker_container_loggers\<close> (source lines 91 to 137).\<close>

definition watch_container ::
  "'lg starter \<Rightarrow> string \<times> 'lg \<Rightarrow> tracker \<Rightarrow> world \<Rightarrow> (exn + tracker) \<times> world" where
  "watch_container start_function_thread docker_container thread_start_tracker w =
     (let container_name = replace_spaces (fst docker_container);
          container_logger = snd docker_container;
          thread_name = container_name @ ''_thread'';
          w1 = log_call DEBUG
                 (''The thread ('' @ thread_name @ '') is being created for '' @ container_name) w
      in
      if \<not> py_in thread_name (str_threads (live w1)) then
        (let w2 = log_call INFO
                    (''Starting the docker container log capture for '' @ container_name) w1
         in
         case start_function_thread container_name container_logger thread_name (live w2) of
           (Some err, ts) \<Rightarrow>
             (Inl (ValueError (str_exn err @ '', Error on line 113 in <'' @ this_module @ ''>'')),
              w2\<lparr>live := ts\<rparr>)
         | (None, ts) \<Rightarrow>
             (let w3 = w2\<lparr>live := ts\<rparr> in
              if py_in thread_name (str_threads (live w3)) then
                (Inr (thread_start_tracker @ [status_entry ''Started'' container_name]),
                 log_call INFO
                   (''The docker container log capture has started for '' @ container_name @
                    ''. Thread name = '' @ thread_name) w3)
              else
                (Inr (thread_start_tracker @ [status_entry ''Failed'' container_name]),
                 log_call ERROR
                   (''Failed to start '' @ thread_name @ '' for '' @ container_name @
                    ''. The program will continue, but additional troubleshooting will be required. The docker container may not be active.'')
                   w3)))
      else
        (Inr thread_start_tracker,
         log_call INFO
           (''The thread ('' @ thread_name @ '') is still running for '' @ container_name @
            ''. No action required'') w1))"

fun watch_all ::
  "'lg starter \<Rightarrow> (string \<times> 'lg) list \<Rightarrow> tracker \<Rightarrow> world \<Rightarrow> (exn + tracker) \<times> world" where
  "watch_all start_function_thread [] thread_start_tracker w = (Inr thread_start_tracker, w)"
| "watch_all start_function_thread (docker_container # rest) thread_start_tracker w =
     (case watch_container start_function_thread docker_container thread_start_tracker w of
        (Inl err, w') \<Rightarrow> (Inl err, w')
      | (Inr tracker', w') \<Rightarrow> watch_all start_function_thread rest tracker' w')"

definition create_docker_log_threads ::
  "'lg starter \<Rightarrow> (string \<times> 'lg) list \<Rightarrow> world \<Rightarrow> (exn + tracker) \<times> world" where
  "create_docker_log_threads start_function_thread docker_container_loggers w =
     watch_all start_function_thread docker_container_loggers []
       (log_call DEBUG ''Creating individual threads for each docker container'' w)"

section \<open>Repeated passes\<close>

text \<open>
  What is asked of \<open>start_function_thread\<close> for the properties about watcher
  threads: by the time it is back, threads that were alive may have ended, and at most
  one new thread is alive, carrying the name it was given.
\<close>

definition starts_at_most_one :: "'lg starter \<Rightarrow> bool" where
  "starts_at_most_one start \<longleftrightarrow>
     (\<forall>cn lg tn ts e ts'. start cn lg tn ts = (e, ts') \<longrightarrow>
        (\<exists>old new. ts' = old @ new \<and> subseq old ts \<and>
           (new = [] \<or> (\<exists>t. new = [t] \<and> t_name t = tn))))"

text \<open>
  The scheduler loop (\<open>while True: main(); time.sleep(3600)\<close>) as far as the threads
  are concerned: one pass per cycle over that cycle's configured containers, until a pass
  raises (\<open>main\<close> then exits the process).
\<close>

fun run_passes :: "'lg starter \<Rightarrow> (string \<times> 'lg) list list \<Rightarrow> world \<Rightarrow> world" where
  "run_passes start [] w = w"
| "run_passes start (docker_container_loggers # later) w =
     (case create_docker_log_threads start docker_container_loggers w of
        (Inl err, w') \<Rightarrow> w'
      | (Inr thread_status, w') \<Rightarrow> run_passes start later w')"

text \<open>
  A starter under which every start succeeds: the call returns and the new thread, a plain
  \<open>Thread\<close> with the given name, is alive next to all the earlier ones.
\<close>

definition always_starts :: "'lg starter \<Rightarrow> bool" where
  "always_starts start \<longleftrightarrow>
     (\<forall>cn lg tn ts. \<exists>d i. start cn lg tn ts =
        (None, ts @ [\<lparr>t_class = ''Thread'', t_name = tn, t_daemon = d, t_ident = i\<rparr>]))"

text \<open>
  No watcher name of a later container occurs in \<open><Thread(\<close> followed by the watcher
  name of an earlier one, the only part of a watcher's rendering that a watcher name can
  match.
\<close>

fun no_name_overlap :: "string list \<Rightarrow> bool" where
  "no_name_overlap [] = True"
| "no_name_overlap (c # cs) =
     ((\<forall>c' \<in> set cs. \<not> py_in (thread_name_of c') (''<Thread('' @ thread_name_of c)) \<and>
      no_name_overlap cs)"

section \<open>get_docker_log\<close>

text \<open>
  \<open>readline()\<close> on the pipe returns \<open>bytes\<close>; \<open>decode('utf-8')\<close> turns them into a
  \<open>str\<close>, a sequence of Unicode code points. The logger names and messages elsewhere
  stay within \<^typ>\<open>string\<close>; the lines of a container log are kept as code points.
\<close>

type_synonym byte = "8 word"
type_synonym unicode = "nat list"

text \<open>
  \<open>bytes.decode('utf-8')\<close> with the default \<open>errors='strict'\<close>: well-formed UTF-8
  only, so no overlong forms, no surrogates and nothing above \<open>U+10FFFF\<close>; anything
  else raises \<open>UnicodeDecodeError\<close>, which is \<open>None\<close> here.
\<close>

definition continuation :: "byte \<Rightarrow> bool" where
  "continuation b \<longleftrightarrow> 0x80 \<le> unat b \<and> unat b \<le> 0xBF"

definition tail_bits :: "byte \<Rightarrow> nat" where
  "tail_bits b = unat b - 0x80"

definition utf8_step :: "byte list \<Rightarrow> (nat \<times> byte list) option" where
  "utf8_step bs =
     (case bs of
        [] \<Rightarrow> None
      | b0 # r0 \<Rightarrow>
          (let a = unat b0 in
           if a < 0x80 then Some (a, r0)
           else if 0xC2 \<le> a \<and> a \<le> 0xDF then
             (case r0 of
                b1 # r \<Rightarrow>
                  if continuation b1 then Some ((a - 0xC0) * 64 + tail_bits b1, r) else None
              | _ \<Rightarrow> None)
           else if 0xE0 \<le> a \<and> a \<le> 0xEF then
             (case r0 of
                b1 # b2 # r \<Rightarrow>
                  if (if a = 0xE0 then 0xA0 else 0x80) \<le> unat b1 \<and>
                     unat b1 \<le> (if a = 0xED then 0x9F else 0xBF) \<and> continuation b2
                  then Some ((a - 0xE0) * 4096 + tail_bits b1 * 64 + tail_bits b2, r)
                  else None
              | _ \<Rightarrow> None)
           else if 0xF0 \<le> a \<and> a \<le> 0xF4 then
             (case r0 of
                b1 # b2 # b3 # r \<Rightarrow>
                  if (if a = 0xF0 then 0x90 else 0x80) \<le> unat b1 \<and>
                     unat b1 \<le> (if a = 0xF4 then 0x8F else 0xBF) \<and>
                     continuation b2 \<and> continuation b3
                  then Some ((a - 0xF0) * 262144 + tail_bits b1 * 4096 + tail_bits b2 * 64 +
                             tail_bits b3, r)
                  else None
              | _ \<Rightarrow> None)
           else None))"

function decode_utf8 :: "byte list \<Rightarrow> unicode option" where
  "decode_utf8 bs =
     (if bs = [] then Some []
      else case utf8_step bs of
             None \<Rightarrow> None
           | Some (c, r) \<Rightarrow> map_option ((#) c) (decode_utf8 r))"
  by pat_completeness auto
termination
  by (relation "measure length")
     (auto simp: utf8_step_def Let_def split: list.splits if_splits)

declare decode_utf8.simps [simp del]

text \<open>
  \<open>str.strip()\<close> without an argument removes whitespace from both ends, whitespace
  being what \<open>str.isspace\<close> accepts.
\<close>

definition py_isspace :: "nat \<Rightarrow> bool" where
  "py_isspace c \<longleftrightarrow>
     (0x09 \<le> c \<and> c \<le> 0x0D) \<or> (0x1C \<le> c \<and> c \<le> 0x20) \<or> c = 0x85 \<or> c = 0xA0 \<or>
     c = 0x1680 \<or> (0x2000 \<le> c \<and> c \<le> 0x200A) \<or> c = 0x2028 \<or> c = 0x2029 \<or>
     c = 0x202F \<or> c = 0x205F \<or> c = 0x3000"

definition py_strip :: "unicode \<Rightarrow> unicode" where
  "py_strip s = rev (dropWhile py_isspace (rev (dropWhile py_isspace s)))"

text \<open>
  \<open>repr\<close> of a \<open>str\<close>, for the list printed in the second debug line: single quotes
  unless the text holds a single quote and no double quote, the quote and the backslash
  escaped, control and other unprintable characters written as escapes.
\<close>

definition hex_digit :: "nat \<Rightarrow> char" where
  "hex_digit d = (if d < 10 then char_of (48 + d) else char_of (87 + d))"

definition repr_char :: "char \<Rightarrow> char \<Rightarrow> string" where
  "repr_char quote c =
     (let n = (of_char c :: nat) in
      if c = quote \<or> c = CHR 0x5C then [CHR 0x5C, c]
      else if c = CHR 0x09 then [CHR 0x5C, CHR ''t'']
      else if c = CHR 0x0A then [CHR 0x5C, CHR ''n'']
      else if c = CHR 0x0D then [CHR 0x5C, CHR ''r'']
      else if n < 32 \<or> n = 127 \<or> (128 \<le> n \<and> n \<le> 160) \<or> n = 173
        then [CHR 0x5C, CHR ''x'', hex_digit (n div 16), hex_digit (n mod 16)]
      else [c])"

definition repr_str :: "string \<Rightarrow> string" where
  "repr_str s =
     (let quote = (if CHR 0x27 \<in> set s \<and> CHR 0x22 \<notin> set s then CHR 0x22 else CHR 0x27)
      in [quote] @ concat (map (repr_char quote) s) @ [quote])"

text \<open>
  The subprocess as the function sees it: \<open>Popen\<close> raises, or the process runs and
  \<open>readline()\<close> returns these lines, one per iteration, for as long as \<open>poll()\<close>
  answers \<open>None\<close>. A process that never ends has no such list; every statement below
  is about the lines read up to some point.
\<close>

datatype subprocess = PopenRaises exn | Reads "byte list list"

text \<open>
  The loop body, \<open>container_logger.info(output.stdout.readline().decode('utf-8').strip())\<close>:
  the calls of the container logger so far are the state. The parameter \<open>reason\<close> is the
  text Python gives the \<open>UnicodeDecodeError\<close> for a line.
\<close>

definition forward_line ::
  "(byte list \<Rightarrow> string) \<Rightarrow> byte list \<Rightarrow> unicode list \<Rightarrow> exn + unicode list" where
  "forward_line reason line container_log =
     (case decode_utf8 line of
        None \<Rightarrow> Inl (UnicodeDecodeError (reason line))
      | Some decoded \<Rightarrow> Inr (container_log @ [py_strip decoded]))"

fun read_lines ::
  "(byte list \<Rightarrow> string) \<Rightarrow> byte list list \<Rightarrow> unicode list \<Rightarrow> exn option \<times> unicode list" where
  "read_lines reason [] container_log = (None, container_log)"
| "read_lines reason (line # later) container_log =
     (case forward_line reason line container_log of
        Inl err \<Rightarrow> (Some err, container_log)
      | Inr container_log' \<Rightarrow> read_lines reason later container_log')"

text \<open>
  The function returns the exception it ends with, if any, the calls made to the
  container logger and the calls made to the root logger.
\<close>

definition get_docker_log ::
  "(byte list \<Rightarrow> string) \<Rightarrow> string \<Rightarrow> subprocess \<Rightarrow> exn option \<times> unicode list \<times> log" where
  "get_docker_log reason container_name output =
     (let started =
            [(DEBUG, ''Starting to redirect the docker container logs for '' @ container_name),
             (DEBUG, ''Processing agruments = ['docker', 'logs', '-f', '' @
                     repr_str container_name @ '']'')]
      in
      case output of
        PopenRaises err \<Rightarrow>
          (Some (ValueError (''The sub-process failed to run. '' @ str_exn err @
                             '', Originating error on line 55 in <'' @ this_module @ ''>'')),
           [], started)
      | Reads lines \<Rightarrow>
          (case read_lines reason lines [] of
             (Some err, container_log) \<Rightarrow>
               (Some (ValueError (''The sub-process failed to run. '' @ str_exn err @
                                  '', Originating error on line 61 in <'' @ this_module @ ''>'')),
                container_log, started)
           | (None, container_log) \<Rightarrow>
               (None, container_log,
                started @
                [(DEBUG, ''The docker container logs for '' @ container_name @
                         '' have stopped outputting. This can happen with the docker container stops running'')])))"

text \<open>
  Well-formed UTF-8 is what encoding a sequence of Unicode scalar values gives. The
  program never encodes; the encoder says which byte sequences are valid.
\<close>

definition scalar_value :: "nat \<Rightarrow> bool" where
  "scalar_value c \<longleftrightarrow> c < 0xD800 \<or> (0xE000 \<le> c \<and> c < 0x110000)"

definition encode_char :: "nat \<Rightarrow> byte list" where
  "encode_char c =
     (if c < 0x80 then [of_nat c]
      else if c < 0x800 then [of_nat (0xC0 + c div 64), of_nat (0x80 + c mod 64)]
      else if c < 0x10000 then
        [of_nat (0xE0 + c div 4096), of_nat (0x80 + c div 64 mod 64), of_nat (0x80 + c mod 64)]
      else
        [of_nat (0xF0 + c div 262144), of_nat (0x80 + c div 4096 mod 64),
         of_nat (0x80 + c div 64 mod 64), of_nat (0x80 + c mod 64)])"

definition encode_utf8 :: "unicode \<Rightarrow> byte list" where
  "encode_utf8 s = concat (map encode_char s)"

section \<open>populate_startup_variables\<close>

text \<open>
  What \<open>read_yaml_config\<close> can hand back: the values of a YAML document, with string
  keys in the mappings.
\<close>

datatype yaml =
    YNone
  | YBool bool
  | YInt int
  | YStr string
  | YList "yaml list"
  | YDict "(string \<times> yaml) list"

text \<open>
  \<open>key in config\<close>: key lookup on a mapping, the substring test on a string, membership
  on a list, and a \<open>TypeError\<close> on anything else.
\<close>

fun py_in_yaml :: "string \<Rightarrow> yaml \<Rightarrow> exn + bool" where
  "py_in_yaml k (YDict items) = Inr (k \<in> set (map fst items))"
| "py_in_yaml k (YStr s) = Inr (py_in k s)"
| "py_in_yaml k (YList xs) = Inr (YStr k \<in> set xs)"
| "py_in_yaml k YNone = Inl (OtherException ''argument of type 'NoneType' is not iterable'')"
| "py_in_yaml k (YBool b) = Inl (OtherException ''argument of type 'bool' is not iterable'')"
| "py_in_yaml k (YInt i) = Inl (OtherException ''argument of type 'int' is not iterable'')"

text \<open>The values \<open>main\<close> takes out of the dictionary the function returns.\<close>

record 'lg startup_variables =
  central_log_path :: string
  email_alerts :: bool
  alert_program_errors :: bool
  docker_container_loggers :: "(string \<times> 'lg) list"
  email_settings :: "(string \<times> yaml) list"

definition and_then :: "exn + 'a \<Rightarrow> ('a \<Rightarrow> exn + 'b) \<Rightarrow> exn + 'b" where
  "and_then r f = (case r of Inl err \<Rightarrow> Inl err | Inr x \<Rightarrow> f x)"

text \<open>
  One of the four checks at source lines 244 to 251. The message names the key; for
  \<open>docker_container\<close> the source's message says \<open>software\<close>.
\<close>

definition require_key :: "string \<Rightarrow> string \<Rightarrow> string \<Rightarrow> yaml \<Rightarrow> exn + unit" where
  "require_key key shown lineno config =
     and_then (py_in_yaml key config)
       (\<lambda>present.
          if \<not> present then
            Inl (ValueError ([CHR ''T'', CHR ''h'', CHR ''e'', CHR '' '', CHR 0x27] @ shown @
                             [CHR 0x27] @
                             '' key is missing from the YAML file, Originating error on line '' @
                             lineno @ '' in <'' @ this_module @ ''>''))
          else Inr ())"

text \<open>The three \<open>except\<close> clauses that close the function: each re-raises a \<open>ValueError\<close>.\<close>

fun reraise_startup :: "exn \<Rightarrow> exn" where
  "reraise_startup (NameError m) =
     ValueError (''NameError: '' @ m @ '', Error on line408 in <'' @ this_module @ ''>'')"
| "reraise_startup (KeyError m) =
     ValueError (''KeyError: '' @ m @ '', Error on line411 in <'' @ this_module @ ''>'')"
| "reraise_startup err =
     ValueError (str_exn err @ '', Error on line414 in <'' @ this_module @ ''>'')"

text \<open>
  The function reads the configuration, checks the four root keys and then pulls,
  validates and stores the settings, creating the log directory and the loggers on the
  way (source lines 253 to 405). That second part works through ictools and the operating
  system only; it is the parameter \<open>load_settings\<close>, which returns the startup variables
  or the exception raised.
\<close>

definition populate_startup_variables ::
  "exn + yaml \<Rightarrow> (yaml \<Rightarrow> exn + 'lg startup_variables) \<Rightarrow> exn + 'lg startup_variables" where
  "populate_startup_variables read_yaml_config load_settings =
     (case
        and_then read_yaml_config (\<lambda>returned_yaml_read_config.
        and_then (require_key ''general'' ''general'' ''245'' returned_yaml_read_config) (\<lambda>_.
        and_then (require_key ''docker_container'' ''software'' ''247'' returned_yaml_read_config) (\<lambda>_.
        and_then (require_key ''email'' ''email'' ''249'' returned_yaml_read_config) (\<lambda>_.
        and_then (require_key ''logging'' ''logging'' ''251'' returned_yaml_read_config) (\<lambda>_.
        load_settings returned_yaml_read_config)))))
      of
        Inl err \<Rightarrow> Inl (reraise_startup err)
      | Inr startup_variables \<Rightarrow> Inr startup_variables)"

section \<open>main\<close>

text \<open>
  Everything \<open>main\<close> gets from outside: the configuration file as read, the settings
  part of the startup, the thread starter, \<open>send_email\<close> (whether it raises, given the
  settings, the subject and the body) and the clock (\<open>now k\<close> is the \<open>k\<close>-th formatted
  reading taken by the error handler).
\<close>

record 'lg environment =
  read_yaml_config :: "exn + yaml"
  load_settings :: "yaml \<Rightarrow> exn + 'lg startup_variables"
  starter :: "'lg starter"
  send_email :: "(string \<times> yaml) list \<Rightarrow> string \<Rightarrow> string \<Rightarrow> exn option"
  now :: "nat \<Rightarrow> string"

text \<open>
  The process as \<open>main\<close> changes it: threads and root log, the lines printed, and the
  mails handed to \<open>send_email\<close>, delivered or not.
\<close>

record process =
  world_of :: world
  stdout :: "string list"
  outbox :: "(string \<times> string) list"

datatype ending = Returns | Exits | Raises exn

definition log_to_root :: "level \<Rightarrow> string \<Rightarrow> process \<Rightarrow> process" where
  "log_to_root lv msg p = p\<lparr>world_of := log_call lv msg (world_of p)\<rparr>"

definition print_line :: "string \<Rightarrow> process \<Rightarrow> process" where
  "print_line s p = p\<lparr>stdout := stdout p @ [s]\<rparr>"

definition dict_get :: "status_dict \<Rightarrow> string \<Rightarrow> string" where
  "dict_get d k = (case map_of d k of None \<Rightarrow> ''None'' | Some v \<Rightarrow> v)"

text \<open>The inner loop, over \<open>enumerate(thread_status_of_dictionary)\<close>.\<close>

fun notify_entries ::
  "'lg environment \<Rightarrow> 'lg startup_variables \<Rightarrow> nat \<Rightarrow> nat \<Rightarrow> status_dict list \<Rightarrow> process \<Rightarrow>
   exn option \<times> process" where
  "notify_entries env sv total_thread_status_entries index [] p = (None, p)"
| "notify_entries env sv total_thread_status_entries index (entry # later) p =
     (let status = dict_get entry ''Status'';
          container_name = dict_get entry ''container_name''
      in
      if email_alerts sv then
        (let p1 = log_to_root INFO
                    (''Sending email. Entry '' @ str_nat (index + 1) @ '' of '' @
                     str_nat total_thread_status_entries) p;
             subject = ''Docker Log Redirect Event for '' @ container_name @ ''. Status = '' @ status;
             body = ''A docker redirect event has occured. Status of the docker log redirect = '' @
                    status;
             p2 = p1\<lparr>outbox := outbox p1 @ [(subject, body)]\<rparr>
         in
         case send_email env (email_settings sv) subject body of
           Some err \<Rightarrow> (Some err, p2)
         | None \<Rightarrow> notify_entries env sv total_thread_status_entries (index + 1) later p2)
      else
        notify_entries env sv total_thread_status_entries (index + 1) later
          (log_to_root INFO ''Email alerting is disabled. The found log event is not be sent'' p))"

text \<open>The outer loop, over \<open>thread_status\<close>.\<close>

fun notify_all ::
  "'lg environment \<Rightarrow> 'lg startup_variables \<Rightarrow> nat \<Rightarrow> tracker \<Rightarrow> process \<Rightarrow> exn option \<times> process" where
  "notify_all env sv total_thread_status_entries [] p = (None, p)"
| "notify_all env sv total_thread_status_entries (thread_status_of_dictionary # later) p =
     (case notify_entries env sv total_thread_status_entries 0 thread_status_of_dictionary p of
        (Some err, p') \<Rightarrow> (Some err, p')
      | (None, p') \<Rightarrow> notify_all env sv total_thread_status_entries later p')"

text \<open>
  The handler \<open>except ValueError as err\<close> (source lines 469 to 504); \<open>lineno\<close> is the
  line of the \<open>try\<close> block the error came through.
\<close>

definition exit_on_error ::
  "'lg environment \<Rightarrow> 'lg startup_variables \<Rightarrow> exn \<Rightarrow> string \<Rightarrow> process \<Rightarrow> ending \<times> process" where
  "exit_on_error env sv err lineno p =
     (let p1 = print_line (now env 0 @ ''|Error|'' @ str_exn err @ '', Error on line '' @ lineno @
                           '' in <'' @ this_module @ ''>'') p;
          p2 = print_line (now env 1 @ ''|Error|'' @ str_exn err) p1;
          p3 = print_line (now env 2 @
                 ''|Info|See log for more details. You may need to enable debugging for more information.'')
                 p2;
          p4 = log_to_root ERROR (str_exn err) p3;
          p5 =
            (if alert_program_errors sv \<and> email_alerts sv then
               (let p6 = log_to_root ERROR ''Sending email notification'' p4;
                    subject = ''Docker Log Redirect Program Issue Occured'';
                    body = now env 3 @ ''|Error|Exception Thrown|'' @ str_exn err;
                    p7 = p6\<lparr>outbox := outbox p6 @ [(subject, body)]\<rparr>
                in
                case send_email env (email_settings sv) subject body of
                  Some mail_err \<Rightarrow> log_to_root ERROR (str_exn mail_err) p7
                | None \<Rightarrow> p7)
             else if \<not> alert_program_errors sv then
               log_to_root DEBUG ''The user chooses not to send program errors to email'' p4
             else
               log_to_root ERROR
                 ''The user did not choose an option on sending program errors to email. Continuing to exit''
                 p4)
      in (Exits, log_to_root ERROR ''Exiting because of the exception error....'' p5))"

text \<open>
  What \<open>except ValueError\<close> catches: a \<open>ValueError\<close> and its subclass
  \<open>UnicodeDecodeError\<close>.
\<close>

definition is_value_error :: "exn \<Rightarrow> bool" where
  "is_value_error err =
     (case err of ValueError m \<Rightarrow> True | UnicodeDecodeError m \<Rightarrow> True | _ \<Rightarrow> False)"

definition banner :: "process \<Rightarrow> process" where
  "banner p =
     log_to_root INFO ''######################################################################''
       (log_to_root INFO ''                   Docker Log Redirect - New Loop                     ''
         (log_to_root INFO ''######################################################################'' p))"

text \<open>
  \<open>populate_startup_variables\<close> is called before the \<open>try\<close>: what it raises leaves
  \<open>main\<close> as it is. Inside the \<open>try\<close> only a \<open>ValueError\<close> reaches the handler.
\<close>

definition main :: "'lg environment \<Rightarrow> process \<Rightarrow> ending \<times> process" where
  "main env p =
     (case populate_startup_variables (read_yaml_config env) (load_settings env) of
        Inl err \<Rightarrow> (Raises err, p)
      | Inr startup_variables \<Rightarrow>
          (let p1 = banner p in
           case create_docker_log_threads (starter env)
                  (docker_container_loggers startup_variables) (world_of p1) of
             (Inl err, w) \<Rightarrow>
               if is_value_error err
               then exit_on_error env startup_variables err ''440'' (p1\<lparr>world_of := w\<rparr>)
               else (Raises err, p1\<lparr>world_of := w\<rparr>)
           | (Inr thread_status, w) \<Rightarrow>
               (case notify_all env startup_variables (length thread_status) thread_status
                       (p1\<lparr>world_of := w\<rparr>) of
                  (Some err, p2) \<Rightarrow>
                    if is_value_error err
                    then exit_on_error env startup_variables err ''463'' p2
                    else (Raises err, p2)
                | (None, p2) \<Rightarrow>
                    (Returns,
                     log_to_root INFO
                       ''The main program will sleep for 1 hour and validate the docker log redirect threads are still running.''
                       p2))))"

section \<open>Concrete inputs\<close>

text \<open>
  The inputs on which the theorems below are instantiated. A process that has just
  started has its main thread only.
\<close>

definition main_thread :: thread where
  "main_thread =
     \<lparr>t_class = ''_MainThread'', t_name = ''MainThread'', t_daemon = False, t_ident = Some 140\<rparr>"

definition fresh_world :: world where
  "fresh_world = \<lparr>live = [main_thread], root_log = []\<rparr>"

text \<open>
  Thread starters: one that always succeeds (a daemon thread with the given name is alive
  afterwards), one that raises for one container, and one whose thread for one container
  has already ended when the caller looks.
\<close>

definition start_ok :: "'lg starter" where
  "start_ok cn lg tn ts =
     (None,
      ts @ [\<lparr>t_class = ''Thread'', t_name = tn, t_daemon = True, t_ident = Some (141 + length ts)\<rparr>])"

definition start_raises_for :: "string \<Rightarrow> 'lg starter" where
  "start_raises_for bad cn lg tn ts =
     (if cn = bad then (Some (OtherException ''can't start new thread''), ts)
      else start_ok cn lg tn ts)"

definition start_dies_for :: "string \<Rightarrow> 'lg starter" where
  "start_dies_for bad cn lg tn ts = (if cn = bad then (None, ts) else start_ok cn lg tn ts)"

text \<open>Configured containers; the loggers play no part and are \<open>()\<close>.\<close>

definition two_containers :: "(string \<times> unit) list" where
  "two_containers = [(''web'', ()), (''db'', ())]"

definition spaced_pair :: "(string \<times> unit) list" where
  "spaced_pair = [(''my app'', ()), (''my_app'', ())]"

definition overlapping_pair :: "(string \<times> unit) list" where
  "overlapping_pair = [(''myapp'', ()), (''app'', ())]"

definition after_first_pass :: world where
  "after_first_pass = snd (create_docker_log_threads start_ok two_containers fresh_world)"

definition live_myapp :: world where
  "live_myapp =
     \<lparr>live = [main_thread,
              \<lparr>t_class = ''Thread'', t_name = ''myapp_thread'', t_daemon = True, t_ident = Some 141\<rparr>],
      root_log = []\<rparr>"

definition web_alive :: world where
  "web_alive =
     \<lparr>live = [main_thread,
              \<lparr>t_class = ''Thread'', t_name = ''web_thread'', t_daemon = True, t_ident = Some 141\<rparr>],
      root_log = []\<rparr>"

text \<open>The text of the \<open>UnicodeDecodeError\<close> for a line that starts with the byte \<open>FF\<close>.\<close>

definition invalid_start :: "byte list \<Rightarrow> string" where
  "invalid_start line =
     [CHR 0x27] @ ''utf-8'' @ [CHR 0x27] @
     '' codec can't decode byte 0xff in position 0: invalid start byte''"

text \<open>
  Following the words of the specification, not the source: a line with its trailing
  whitespace trimmed and nothing else changed.
\<close>

definition trailing_trimmed :: "unicode \<Rightarrow> unicode" where
  "trailing_trimmed s = rev (dropWhile py_isspace (rev s))"

text \<open>Configurations, with and without the \<open>email\<close> section, and what is loaded from them.\<close>

definition config_without_email :: yaml where
  "config_without_email =
     YDict [(''general'', YDict [(''central_log_path'', YStr ''/var/log/docker''),
                                 (''email_alerts'', YBool True),
                                 (''alert_program_errors'', YBool True)]),
            (''docker_container'', YDict [(''web'', YDict [(''container_name'', YStr ''web''),
                                                          (''log_name'', YStr ''web.log'')])]),
            (''logging'', YDict [(''max_log_file_size'', YInt 1000000)])]"

definition complete_config :: yaml where
  "complete_config =
     YDict [(''general'', YDict [(''central_log_path'', YStr ''/var/log/docker''),
                                 (''email_alerts'', YBool True),
                                 (''alert_program_errors'', YBool True)]),
            (''docker_container'', YDict [(''web'', YDict [(''container_name'', YStr ''web''),
                                                          (''log_name'', YStr ''web.log'')])]),
            (''email'', YDict [(''smtp'', YStr ''smtp.example.org'')]),
            (''logging'', YDict [(''max_log_file_size'', YInt 1000000)])]"

definition loaded_settings :: "unit startup_variables" where
  "loaded_settings =
     \<lparr>central_log_path = ''/var/log/docker'', email_alerts = True,
          alert_program_errors = True, docker_container_loggers = two_containers,
          email_settings = [(''smtp'', YStr ''smtp.example.org'')]\<rparr>"

definition settings_loaded :: "yaml \<Rightarrow> exn + unit startup_variables" where
  "settings_loaded config = Inr loaded_settings"

definition no_such_file :: string where
  "no_such_file =
     ''[Errno 2] No such file or directory: 'docker_log_redirect.yaml'' @ [CHR 0x27]"

text \<open>
  Environments of \<open>main\<close>: the \<open>email\<close> section is missing; the file cannot be read;
  the thread for \<open>web\<close> cannot be started; the mail server refuses every mail; the
  mail settings cannot be decoded.
\<close>

definition env_without_email :: "unit environment" where
  "env_without_email =
     \<lparr>read_yaml_config = Inr config_without_email, load_settings = settings_loaded,
      starter = start_ok, send_email = (\<lambda>settings subject body. None),
      now = (\<lambda>k. ''2021-06-01 12:00:00'')\<rparr>"

definition env_unreadable :: "unit environment" where
  "env_unreadable =
     \<lparr>read_yaml_config = Inl (OtherException no_such_file),
      load_settings = settings_loaded, starter = start_ok,
      send_email = (\<lambda>settings subject body. None), now = (\<lambda>k. ''2021-06-01 12:00:00'')\<rparr>"

definition env_failing_start :: "unit environment" where
  "env_failing_start =
     \<lparr>read_yaml_config = Inr complete_config, load_settings = settings_loaded,
      starter = start_raises_for ''web'', send_email = (\<lambda>settings subject body. None),
      now = (\<lambda>k. ''2021-06-01 12:00:00'')\<rparr>"

definition env_mail_down :: "unit environment" where
  "env_mail_down =
     \<lparr>read_yaml_config = Inr complete_config, load_settings = settings_loaded,
      starter = start_ok,
      send_email = (\<lambda>settings subject body. Some (ValueError ''Connection refused'')),
      now = (\<lambda>k. ''2021-06-01 12:00:00'')\<rparr>"

definition env_mail_garbled :: "unit environment" where
  "env_mail_garbled =
     \<lparr>read_yaml_config = Inr complete_config, load_settings = settings_loaded,
      starter = start_ok,
      send_email = (\<lambda>settings subject body. Some (UnicodeDecodeError ''invalid start byte'')),
      now = (\<lambda>k. ''2021-06-01 12:00:00'')\<rparr>"

definition fresh_process :: process where
  "fresh_process = \<lparr>world_of = fresh_world, stdout = [], outbox = []\<rparr>"

section \<open>Properties of the supervision pass\<close>

subsection \<open>Logging leaves the threads alone\<close>

lemma live_log_call [simp]: "live (log_call lv msg w) = live w"
  by (simp add: log_call_def)

lemma root_log_log_call [simp]: "root_log (log_call lv msg w) = root_log w @ [(lv, msg)]"
  by (simp add: log_call_def)

lemma thread_name_of_alt: "replace_spaces c @ ''_thread'' = thread_name_of c"
  by (simp add: thread_name_of_def)

lemma watch_container_active:
  assumes "py_in (thread_name_of (fst dc)) (str_threads (live w))"
  shows "watch_container start dc trk w =
           (Inr trk,
            log_call INFO (''The thread ('' @ thread_name_of (fst dc) @ '') is still running for '' @
                           replace_spaces (fst dc) @ ''. No action required'')
              (log_call DEBUG (''The thread ('' @ thread_name_of (fst dc) @ '') is being created for '' @
                               replace_spaces (fst dc)) w))"
  using assms by (simp add: watch_container_def Let_def thread_name_of_def)

lemma watch_all_active:
  "\<forall>dc \<in> set dcs. py_in (thread_name_of (fst dc)) (str_threads (live w)) \<Longrightarrow>
   fst (watch_all start dcs trk w) = Inr trk \<and> live (snd (watch_all start dcs trk w)) = live w"
proof (induction dcs arbitrary: w)
  case Nil
  then show ?case by simp
next
  case (Cons dc dcs)
  have act: "py_in (thread_name_of (fst dc)) (str_threads (live w))"
    using Cons.prems by simp
  let ?w' = "snd (watch_container start dc trk w)"
  have step: "fst (watch_container start dc trk w) = Inr trk"
    using watch_container_active [OF act, of start trk] by simp
  have lv: "live ?w' = live w"
    using watch_container_active [OF act, of start trk] by simp
  have "\<forall>d \<in> set dcs. py_in (thread_name_of (fst d)) (str_threads (live ?w'))"
    using Cons.prems lv by simp
  from Cons.IH [OF this] show ?case
    using step lv by (simp add: split_beta)
qed

lemma after_first_pass_live:
  "live after_first_pass =
     [main_thread,
      \<lparr>t_class = ''Thread'', t_name = ''web_thread'', t_daemon = True, t_ident = Some 142\<rparr>,
      \<lparr>t_class = ''Thread'', t_name = ''db_thread'', t_daemon = True, t_ident = Some 143\<rparr>]"
  by code_simp


lemma world_updates:
  "(w :: world)\<lparr>live := a, root_log := b\<rparr> = \<lparr>live = a, root_log = b\<rparr>"
  by (cases w) simp

lemma world_log_only:
  "(w :: world)\<lparr>root_log := b\<rparr> = \<lparr>live = live w, root_log = b\<rparr>"
  by (cases w) simp

subsection \<open>The three ways an iteration that starts a thread can end\<close>

lemma watch_container_raises:
  assumes "\<not> py_in (thread_name_of (fst dc)) (str_threads (live w))"
    and "start (replace_spaces (fst dc)) (snd dc) (thread_name_of (fst dc)) (live w) = (Some err, ts)"
  shows "watch_container start dc trk w =
           (Inl (ValueError (str_exn err @ '', Error on line 113 in <'' @ this_module @ ''>'')),
            (log_call INFO (''Starting the docker container log capture for '' @ replace_spaces (fst dc))
              (log_call DEBUG (''The thread ('' @ thread_name_of (fst dc) @ '') is being created for '' @
                               replace_spaces (fst dc)) w))\<lparr>live := ts\<rparr>)"
  using assms by (simp add: watch_container_def Let_def thread_name_of_def)

lemma watch_container_failed:
  assumes "\<not> py_in (thread_name_of (fst dc)) (str_threads (live w))"
    and "start (replace_spaces (fst dc)) (snd dc) (thread_name_of (fst dc)) (live w) = (None, ts)"
    and "\<not> py_in (thread_name_of (fst dc)) (str_threads ts)"
  shows "watch_container start dc trk w =
           (Inr (trk @ [status_entry ''Failed'' (replace_spaces (fst dc))]),
            log_call ERROR
              (''Failed to start '' @ thread_name_of (fst dc) @ '' for '' @ replace_spaces (fst dc) @
               ''. The program will continue, but additional troubleshooting will be required. The docker container may not be active.'')
              ((log_call INFO (''Starting the docker container log capture for '' @ replace_spaces (fst dc))
                 (log_call DEBUG (''The thread ('' @ thread_name_of (fst dc) @ '') is being created for '' @
                                  replace_spaces (fst dc)) w))\<lparr>live := ts\<rparr>))"
  using assms by (simp add: watch_container_def Let_def thread_name_of_def)

lemma watch_container_started:
  assumes "\<not> py_in (thread_name_of (fst dc)) (str_threads (live w))"
    and "start (replace_spaces (fst dc)) (snd dc) (thread_name_of (fst dc)) (live w) = (None, ts)"
    and "py_in (thread_name_of (fst dc)) (str_threads ts)"
  shows "watch_container start dc trk w =
           (Inr (trk @ [status_entry ''Started'' (replace_spaces (fst dc))]),
            log_call INFO
              (''The docker container log capture has started for '' @ replace_spaces (fst dc) @
               ''. Thread name = '' @ thread_name_of (fst dc))
              ((log_call INFO (''Starting the docker container log capture for '' @ replace_spaces (fst dc))
                 (log_call DEBUG (''The thread ('' @ thread_name_of (fst dc) @ '') is being created for '' @
                                  replace_spaces (fst dc)) w))\<lparr>live := ts\<rparr>))"
  using assms by (simp add: watch_container_def Let_def thread_name_of_def)

lemma sublist_name_repr: "sublist (t_name t) (repr_thread t)"
proof -
  have "repr_thread t = (''<'' @ t_class t @ ''('') @ t_name t @
      ('', '' @ (''started'' @ (if t_daemon t then '' daemon'' else '''') @
      (case t_ident t of None \<Rightarrow> '''' | Some i \<Rightarrow> '' '' @ str_nat i)) @ '')>'')"
    by (simp add: repr_thread_def)
  then show ?thesis
    unfolding sublist_def by blast
qed

lemma sublist_join_comma: "x \<in> set xs \<Longrightarrow> sublist x (join_comma xs)"
proof (induction xs rule: join_comma.induct)
  case 1
  then show ?case by simp
next
  case (2 y)
  then show ?case by simp
next
  case (3 y z zs)
  show ?case
  proof (cases "x = y")
    case True
    then show ?thesis by simp
  next
    case False
    with 3 have "sublist x (join_comma (z # zs))" by simp
    then have "sublist x ((y @ '', '') @ join_comma (z # zs))"
      by (rule sublist_order.order.trans) (rule suffix_imp_sublist, rule suffix_appendI, simp)
    then show ?thesis by simp
  qed
qed

lemma name_in_str_threads:
  assumes "t \<in> set ts"
  shows "sublist (t_name t) (str_threads ts)"
proof -
  have "sublist (repr_thread t) (join_comma (map repr_thread ts))"
    using assms by (intro sublist_join_comma) simp
  then have "sublist (repr_thread t) (str_threads ts)"
    unfolding str_threads_def sublist_def by (metis append.assoc)
  with sublist_name_repr [of t] show ?thesis
    by (rule sublist_order.order.trans)
qed

lemma watch_container_returns:
  assumes "fst (watch_container start dc trk w) = Inr trk'"
  shows "trk' = trk \<or>
         trk' = trk @ [status_entry ''Started'' (replace_spaces (fst dc))] \<or>
         trk' = trk @ [status_entry ''Failed'' (replace_spaces (fst dc))]"
  using assms
  by (auto simp: watch_container_def Let_def split: if_splits prod.splits option.splits)

lemma watch_all_entries:
  "fst (watch_all start dcs trk w) = Inr trk' \<Longrightarrow>
   \<exists>new. trk' = trk @ new \<and>
     (\<forall>e \<in> set new. \<exists>dc \<in> set dcs.
        e = status_entry ''Started'' (replace_spaces (fst dc)) \<or>
        e = status_entry ''Failed'' (replace_spaces (fst dc)))"
proof (induction dcs arbitrary: trk w)
  case Nil
  then show ?case by simp
next
  case (Cons dc dcs)
  obtain r w1 where step: "watch_container start dc trk w = (r, w1)"
    by (cases "watch_container start dc trk w")
  show ?case
  proof (cases r)
    case (Inl e)
    with step Cons.prems show ?thesis by simp
  next
    case (Inr trk1)
    with step Cons.prems have rest: "fst (watch_all start dcs trk1 w1) = Inr trk'"
      by simp
    from Cons.IH [OF rest] obtain new where
      new: "trk' = trk1 @ new"
        "\<forall>e \<in> set new. \<exists>dc \<in> set dcs.
           e = status_entry ''Started'' (replace_spaces (fst dc)) \<or>
           e = status_entry ''Failed'' (replace_spaces (fst dc))"
      by blast
    from step Inr have "fst (watch_container start dc trk w) = Inr trk1" by simp
    from watch_container_returns [OF this]
    consider "trk1 = trk"
      | "trk1 = trk @ [status_entry ''Started'' (replace_spaces (fst dc))]"
      | "trk1 = trk @ [status_entry ''Failed'' (replace_spaces (fst dc))]"
      by blast
    then show ?thesis
    proof cases
      case 1
      with new show ?thesis by auto
    next
      case 2
      with new have "trk' = trk @ (status_entry ''Started'' (replace_spaces (fst dc)) # new)"
        by simp
      moreover have "\<forall>e \<in> set (status_entry ''Started'' (replace_spaces (fst dc)) # new).
          \<exists>d \<in> set (dc # dcs).
            e = status_entry ''Started'' (replace_spaces (fst d)) \<or>
            e = status_entry ''Failed'' (replace_spaces (fst d))"
        using new(2) by auto
      ultimately show ?thesis by blast
    next
      case 3
      with new have "trk' = trk @ (status_entry ''Failed'' (replace_spaces (fst dc)) # new)"
        by simp
      moreover have "\<forall>e \<in> set (status_entry ''Failed'' (replace_spaces (fst dc)) # new).
          \<exists>d \<in> set (dc # dcs).
            e = status_entry ''Started'' (replace_spaces (fst d)) \<or>
            e = status_entry ''Failed'' (replace_spaces (fst d))"
        using new(2) by auto
      ultimately show ?thesis by blast
    qed
  qed
qed

lemma same_thread_name:
  "thread_name_of c1 = thread_name_of c2 \<longleftrightarrow> replace_spaces c1 = replace_spaces c2"
  by (simp add: thread_name_of_def)

subsection \<open>Thread names stay distinct\<close>

lemma subseq_distinct: "subseq xs ys \<Longrightarrow> distinct ys \<Longrightarrow> distinct xs"
  using subseqs_distinctD [of xs ys] by simp

lemma subseq_set: "subseq xs ys \<Longrightarrow> set xs \<subseteq> set ys"
  by (induction rule: list_emb.induct) auto

lemma not_found_not_named:
  assumes "\<not> py_in n (str_threads ts)"
  shows "n \<notin> t_name ` set ts"
proof
  assume "n \<in> t_name ` set ts"
  then obtain t where "t \<in> set ts" "t_name t = n" by auto
  with name_in_str_threads [of t ts] have "sublist n (str_threads ts)" by simp
  with assms show False by (simp add: py_in_def)
qed

lemma start_keeps_names_distinct:
  assumes ok: "starts_at_most_one start"
    and d: "distinct (map t_name ts)"
    and n: "\<not> py_in tn (str_threads ts)"
    and s: "start cn lg tn ts = (e, ts')"
  shows "distinct (map t_name ts')"
proof -
  from ok have "start cn lg tn ts = (e, ts') \<longrightarrow>
      (\<exists>old new. ts' = old @ new \<and> subseq old ts \<and>
         (new = [] \<or> (\<exists>t. new = [t] \<and> t_name t = tn)))"
    unfolding starts_at_most_one_def by (elim allE)
  with s obtain old new where
    ts': "ts' = old @ new" and sub: "subseq old ts" and
    new: "new = [] \<or> (\<exists>t. new = [t] \<and> t_name t = tn)"
    by (elim impE exE conjE)
  have dold: "distinct (map t_name old)"
    using subseq_distinct [OF subseq_map [OF sub, of t_name] d] .
  have "tn \<notin> t_name ` set ts"
    using n by (rule not_found_not_named)
  with subseq_set [OF sub] have fresh: "tn \<notin> t_name ` set old" by blast
  from new show ?thesis
  proof
    assume "new = []"
    then show ?thesis unfolding ts' using dold by simp
  next
    assume "\<exists>t. new = [t] \<and> t_name t = tn"
    then obtain t where nt: "new = [t]" and tt: "t_name t = tn" by (elim exE conjE)
    have "t_name t \<notin> t_name ` set old" using fresh unfolding tt .
    then show ?thesis unfolding ts' nt using dold by simp
  qed
qed

lemma watch_container_names_distinct:
  assumes ok: "starts_at_most_one start" and d: "distinct (map t_name (live w))"
  shows "distinct (map t_name (live (snd (watch_container start dc trk w))))"
proof (cases "py_in (thread_name_of (fst dc)) (str_threads (live w))")
  case True
  then show ?thesis using d by (simp add: watch_container_active)
next
  case False
  obtain e ts' where s:
    "start (replace_spaces (fst dc)) (snd dc) (thread_name_of (fst dc)) (live w) = (e, ts')"
    by (cases "start (replace_spaces (fst dc)) (snd dc) (thread_name_of (fst dc)) (live w)")
  have d': "distinct (map t_name ts')"
    using start_keeps_names_distinct [OF ok d False s] .
  show ?thesis
  proof (cases e)
    case None
    show ?thesis
    proof (cases "py_in (thread_name_of (fst dc)) (str_threads ts')")
      case True
      with False s None d' show ?thesis
        by (simp add: watch_container_started [where start = start])
    next
      case f: False
      with False s None d' show ?thesis
        by (simp add: watch_container_failed [where start = start])
    qed
  next
    case (Some err)
    with False s d' show ?thesis
      by (simp add: watch_container_raises [where start = start])
  qed
qed

lemma watch_all_names_distinct:
  assumes ok: "starts_at_most_one start"
  shows "distinct (map t_name (live w)) \<Longrightarrow>
         distinct (map t_name (live (snd (watch_all start dcs trk w))))"
proof (induction dcs arbitrary: trk w)
  case Nil
  then show ?case by simp
next
  case (Cons dc dcs)
  obtain r w1 where step: "watch_container start dc trk w = (r, w1)"
    by (cases "watch_container start dc trk w")
  have d1: "distinct (map t_name (live w1))"
    using watch_container_names_distinct [OF ok Cons.prems, of dc trk] step by simp
  show ?case
  proof (cases r)
    case (Inl e)
    with step d1 show ?thesis by simp
  next
    case (Inr trk1)
    with step Cons.IH [OF d1, of trk1] show ?thesis by simp
  qed
qed

lemma pass_names_distinct:
  assumes "starts_at_most_one start" and "distinct (map t_name (live w))"
  shows "distinct (map t_name (live (snd (create_docker_log_threads start dcs w))))"
  unfolding create_docker_log_threads_def
  using assms by (intro watch_all_names_distinct) simp_all

lemma start_ok_at_most_one: "starts_at_most_one start_ok"
  unfolding starts_at_most_one_def start_ok_def
proof (intro allI impI)
  fix cn :: string and lg :: 'a and tn ts e ts'
  assume "(None, ts @ [\<lparr>t_class = ''Thread'', t_name = tn, t_daemon = True,
             t_ident = Some (141 + length ts)\<rparr>]) = (e, ts')"
  then have "ts' = ts @ [\<lparr>t_class = ''Thread'', t_name = tn, t_daemon = True,
             t_ident = Some (141 + length ts)\<rparr>]" by simp
  then show "\<exists>old new. ts' = old @ new \<and> subseq old ts \<and>
           (new = [] \<or> (\<exists>t. new = [t] \<and> t_name t = tn))"
    by (intro exI [of _ ts] exI [of _ "[\<lparr>t_class = ''Thread'', t_name = tn, t_daemon = True,
             t_ident = Some (141 + length ts)\<rparr>]"]) simp
qed

subsection \<open>Where a watcher name can occur in the rendering of the threads\<close>

lemma sublist_split_at:
  assumes "c \<notin> set s" and "sublist s (a @ c # b)"
  shows "sublist s a \<or> sublist s b"
proof -
  from assms(2) obtain ps ss where eq: "a @ c # b = ps @ s @ ss"
    unfolding sublist_def by blast
  then have "a @ c # b = ps @ (s @ ss)" by simp
  then consider us where "a = ps @ us" "us @ c # b = s @ ss"
    | us where "a @ us = ps" "c # b = us @ s @ ss"
    by (auto simp: append_eq_append_conv2)
  then show ?thesis
  proof cases
    case 1
    from 1(2) consider vs where "us = s @ vs" "vs @ c # b = ss"
      | vs where "us @ vs = s" "c # b = vs @ ss"
      by (auto simp: append_eq_append_conv2)
    then show ?thesis
    proof cases
      case 1
      with \<open>a = ps @ us\<close> have "a = ps @ s @ vs" by simp
      then show ?thesis unfolding sublist_def by blast
    next
      case 2
      show ?thesis
      proof (cases vs)
        case Nil
        with 2 \<open>a = ps @ us\<close> have "a = ps @ s @ []" by simp
        then show ?thesis unfolding sublist_def by blast
      next
        case (Cons v vs')
        with 2(2) have "v = c" by simp
        with Cons 2(1) have "c \<in> set s" by auto
        with assms(1) show ?thesis by simp
      qed
    qed
  next
    case 2
    show ?thesis
    proof (cases us)
      case Nil
      with 2(2) have "c # b = s @ ss" by simp
      show ?thesis
      proof (cases s)
        case Nil
        then show ?thesis by simp
      next
        case (Cons x xs)
        with \<open>c # b = s @ ss\<close> have "x = c" by simp
        with Cons assms(1) show ?thesis by simp
      qed
    next
      case (Cons u us')
      with 2(2) have "b = us' @ s @ ss" by simp
      then show ?thesis unfolding sublist_def by blast
    qed
  qed
qed

lemma sublist_drop_last:
  assumes "s \<noteq> []" and "last s \<noteq> c" and "sublist s (a @ [c])"
  shows "sublist s a"
proof -
  from assms(3) obtain ps ss where eq: "a @ [c] = ps @ s @ ss"
    unfolding sublist_def by blast
  show ?thesis
  proof (cases ss rule: rev_cases)
    case Nil
    with eq have "a @ [c] = (ps @ butlast s) @ [last s]"
      using assms(1) by simp
    then have "last s = c" by (simp only: append1_eq_conv)
    with assms(2) show ?thesis by simp
  next
    case (snoc ss' x)
    with eq have "a @ [c] = (ps @ s @ ss') @ [x]" by simp
    then have "a = ps @ s @ ss'" by (simp only: append1_eq_conv)
    then show ?thesis unfolding sublist_def by blast
  qed
qed

lemma str_nat_no_underscore: "CHR ''_'' \<notin> set (str_nat n)"
proof (induction n rule: str_nat.induct)
  case (1 n)
  have digit: "char_of (48 + d) \<noteq> CHR ''_''" if "d < 10" for d :: nat
  proof
    assume "char_of (48 + d) = CHR ''_''"
    then have "of_char (char_of (48 + d)) = (of_char CHR ''_'' :: nat)" by simp
    then have "(48 + d) mod 256 = 95" by simp
    with that show False by simp
  qed
  show ?case
  proof (cases "n < 10")
    case True
    then show ?thesis
      using digit [of n] by (subst str_nat.simps) (simp del: char_of_nat)
  next
    case False
    have "n mod 10 < 10" by simp
    from digit [OF this] 1 False show ?thesis
      by (subst str_nat.simps) (simp del: char_of_nat)
  qed
qed

lemma join_comma_snoc: "xs \<noteq> [] \<Longrightarrow> join_comma (xs @ [y]) = join_comma xs @ '', '' @ y"
  by (induction xs rule: join_comma.induct) simp_all

lemma thread_name_no_space: "CHR '' '' \<notin> set (thread_name_of c)"
  by (auto simp: thread_name_of_def replace_spaces_def)

lemma thread_name_last: "thread_name_of c \<noteq> [] \<and> last (thread_name_of c) = CHR ''d''"
  by (simp add: thread_name_of_def)

lemma thread_name_underscore: "CHR ''_'' \<in> set (thread_name_of c)"
  by (simp add: thread_name_of_def)

lemma status_no_underscore:
  "CHR ''_'' \<notin> set (''started'' @ (if d then '' daemon'' else []) @
      (case i of None \<Rightarrow> [] | Some n \<Rightarrow> '' '' @ str_nat n) @ '')>]'')"
  using str_nat_no_underscore by (cases i; cases d) simp_all

lemma not_found_after_start:
  assumes ne: "ts \<noteq> []"
    and old: "\<not> py_in (thread_name_of c) (str_threads ts)"
    and new: "\<not> py_in (thread_name_of c) (''<Thread('' @ tn)"
  shows "\<not> py_in (thread_name_of c)
           (str_threads (ts @ [\<lparr>t_class = ''Thread'', t_name = tn, t_daemon = d, t_ident = i\<rparr>]))"
proof
  let ?s = "thread_name_of c"
  let ?j = "join_comma (map repr_thread ts)"
  let ?rest = "''started'' @ (if d then '' daemon'' else []) @
      (case i of None \<Rightarrow> [] | Some n \<Rightarrow> '' '' @ str_nat n) @ '')>]''"
  assume "py_in ?s
           (str_threads (ts @ [\<lparr>t_class = ''Thread'', t_name = tn, t_daemon = d, t_ident = i\<rparr>]))"
  then have "sublist ?s ((''['' @ ?j @ '','') @ CHR '' '' # ((''<Thread('' @ tn @ '','') @ CHR '' '' # ?rest))"
    using ne by (simp add: py_in_def str_threads_def join_comma_snoc repr_thread_def)
  from sublist_split_at [OF thread_name_no_space this]
  consider "sublist ?s (''['' @ ?j @ '','')"
    | "sublist ?s ((''<Thread('' @ tn @ '','') @ CHR '' '' # ?rest)"
    by blast
  then show False
  proof cases
    case 1
    then have "sublist ?s ((''['' @ ?j) @ [CHR '',''])" by simp
    from sublist_drop_last [OF _ _ this] thread_name_last [of c]
    have "sublist ?s (''['' @ ?j)" by simp
    then have "sublist ?s ((''['' @ ?j) @ '']'')"
      by (rule sublist_order.order.trans) (rule prefix_imp_sublist, simp)
    with old show False by (simp add: py_in_def str_threads_def)
  next
    case 2
    from sublist_split_at [OF thread_name_no_space this]
    consider "sublist ?s (''<Thread('' @ tn @ '','')" | "sublist ?s ?rest"
      by blast
    then show False
    proof cases
      case 1
      then have "sublist ?s ((''<Thread('' @ tn) @ [CHR '',''])" by simp
      from sublist_drop_last [OF _ _ this] thread_name_last [of c]
      have "sublist ?s (''<Thread('' @ tn)" by simp
      with new show False by (simp add: py_in_def)
    next
      case 2
      from set_mono_sublist [OF this] thread_name_underscore [of c]
      have "CHR ''_'' \<in> set ?rest" by blast
      with status_no_underscore [of d i] show False by blast
    qed
  qed
qed

lemma watch_all_all_started:
  assumes ok: "always_starts start"
  shows "live w \<noteq> [] \<Longrightarrow>
         \<forall>dc \<in> set dcs. \<not> py_in (thread_name_of (fst dc)) (str_threads (live w)) \<Longrightarrow>
         no_name_overlap (map fst dcs) \<Longrightarrow>
         fst (watch_all start dcs trk w) =
           Inr (trk @ map (\<lambda>dc. status_entry ''Started'' (replace_spaces (fst dc))) dcs)"
proof (induction dcs arbitrary: trk w)
  case Nil
  then show ?case by simp
next
  case (Cons dc dcs)
  let ?tn = "thread_name_of (fst dc)"
  have n: "\<not> py_in ?tn (str_threads (live w))"
    using Cons.prems(2) by simp
  from ok obtain d i where s:
    "start (replace_spaces (fst dc)) (snd dc) ?tn (live w) =
       (None, live w @ [\<lparr>t_class = ''Thread'', t_name = ?tn, t_daemon = d, t_ident = i\<rparr>])"
    unfolding always_starts_def by (elim allE exE)
  let ?t = "\<lparr>t_class = ''Thread'', t_name = ?tn, t_daemon = d, t_ident = i\<rparr>"
  have "sublist (t_name ?t) (str_threads (live w @ [?t]))"
    by (rule name_in_str_threads) simp
  then have p: "py_in ?tn (str_threads (live w @ [?t]))"
    by (simp add: py_in_def)
  define w1 where "w1 = snd (watch_container start dc trk w)"
  have step: "watch_container start dc trk w =
      (Inr (trk @ [status_entry ''Started'' (replace_spaces (fst dc))]), w1)"
    unfolding w1_def
    by (simp add: watch_container_started [where start = start, OF n s p])
  have lv: "live w1 = live w @ [?t]"
    unfolding w1_def
    by (simp add: watch_container_started [where start = start, OF n s p])
  have ne1: "live w1 \<noteq> []"
    by (simp add: lv)
  have rest: "\<forall>dc' \<in> set dcs. \<not> py_in (thread_name_of (fst dc')) (str_threads (live w1))"
  proof
    fix dc' assume m: "dc' \<in> set dcs"
    have a: "\<not> py_in (thread_name_of (fst dc')) (str_threads (live w))"
      using Cons.prems(2) m by simp
    have b: "\<not> py_in (thread_name_of (fst dc')) (''<Thread('' @ ?tn)"
      using Cons.prems(3) m by simp
    show "\<not> py_in (thread_name_of (fst dc')) (str_threads (live w1))"
      unfolding lv by (rule not_found_after_start [OF Cons.prems(1) a b])
  qed
  have ov: "no_name_overlap (map fst dcs)"
    using Cons.prems(3) by simp
  from Cons.IH [OF ne1 rest ov, of "trk @ [status_entry ''Started'' (replace_spaces (fst dc))]"]
  show ?case
    by (simp add: step)
qed

section \<open>Properties of the stream reader\<close>

subsection \<open>Decoding what the encoder produces\<close>

lemma unat_byte: "n < 256 \<Longrightarrow> unat (of_nat n :: byte) = n"
  by (simp add: unat_of_nat)

lemma tail_byte:
  "m < 64 \<Longrightarrow> continuation (of_nat (0x80 + m)) \<and> tail_bits (of_nat (0x80 + m)) = m \<and>
     unat (of_nat (0x80 + m) :: byte) = 0x80 + m"
proof -
  assume "m < 64"
  then have "0x80 + m < 256" by simp
  then have u: "unat (of_nat (0x80 + m) :: byte) = 0x80 + m"
    by (rule unat_byte)
  show ?thesis
    unfolding continuation_def tail_bits_def u using \<open>m < 64\<close> by simp
qed

lemma step_1: "c < 0x80 \<Longrightarrow> utf8_step (of_nat c # r) = Some (c, r)"
  by (simp add: utf8_step_def unat_byte)

lemma step_2:
  assumes "0x80 \<le> c" "c < 0x800"
  shows "utf8_step (of_nat (0xC0 + c div 64) # of_nat (0x80 + c mod 64) # r) = Some (c, r)"
proof -
  have a: "unat (of_nat (0xC0 + c div 64) :: byte) = 0xC0 + c div 64"
    using assms by (intro unat_byte) simp
  have lo: "2 \<le> c div 64" and hi: "c div 64 < 32"
    using assms by simp_all
  have m: "c mod 64 < 64" by simp
  note t = tail_byte [OF m]
  have v: "c div 64 * 64 + c mod 64 = c" by simp
  show ?thesis
    using lo hi by (simp add: utf8_step_def a t v del: of_nat_add)
qed

lemma step_3_core:
  assumes h: "h < 16" and m: "m < 64" and l: "l < 64"
    and low: "h = 0 \<Longrightarrow> 32 \<le> m" and sur: "h = 13 \<Longrightarrow> m < 32"
  shows "utf8_step (of_nat (0xE0 + h) # of_nat (0x80 + m) # of_nat (0x80 + l) # r) =
           Some (h * 4096 + m * 64 + l, r)"
proof -
  from h have "0xE0 + h < 256" by simp
  then have a: "unat (of_nat (0xE0 + h) :: byte) = 0xE0 + h"
    by (rule unat_byte)
  note tm = tail_byte [OF m] and tl = tail_byte [OF l]
  have c1: "(if 0xE0 + h = 0xE0 then 0xA0 else 0x80) \<le> (0x80 + m :: nat)"
    using low by (cases "h = 0") simp_all
  have c2: "(0x80 + m :: nat) \<le> (if 0xE0 + h = 0xED then 0x9F else 0xBF)"
    using sur m by (cases "h = 13") simp_all
  have r1: "\<not> 0xE0 + h < (0x80 :: nat)" by simp
  have r2: "\<not> (0xC2 \<le> 0xE0 + h \<and> 0xE0 + h \<le> (0xDF :: nat))" by simp
  have r3: "0xE0 \<le> 0xE0 + h \<and> 0xE0 + h \<le> (0xEF :: nat)" using h by simp
  have r4: "0xE0 + h - 0xE0 = h" by simp
  show ?thesis
    unfolding utf8_step_def list.case Let_def a
    by (simp only: r1 r2 r3 r4 c1 c2 tm tl if_True if_False simp_thms)
qed

lemma base64_digits:
  fixes c :: nat
  obtains q m l where "c = (q * 64 + m) * 64 + l" "m < 64" "l < 64"
    "c div 4096 = q" "c div 64 mod 64 = m" "c mod 64 = l"
proof
  show "c = (c div 64 div 64 * 64 + c div 64 mod 64) * 64 + c mod 64" by simp
  show "c div 64 mod 64 < 64" "c mod 64 < 64" by simp_all
  show "c div 4096 = c div 64 div 64" by (simp add: div_mult2_eq)
qed simp_all

lemma step_3:
  assumes "0x800 \<le> c" "c < 0x10000" "scalar_value c"
  shows "utf8_step (of_nat (0xE0 + c div 4096) # of_nat (0x80 + c div 64 mod 64) #
                    of_nat (0x80 + c mod 64) # r) = Some (c, r)"
proof -
  obtain q m l where c: "c = (q * 64 + m) * 64 + l" and m: "m < 64" and l: "l < 64"
    and d: "c div 4096 = q" "c div 64 mod 64 = m" "c mod 64 = l"
    by (rule base64_digits)
  have h: "q < 16" using assms(2) c by simp
  have low: "q = 0 \<Longrightarrow> 32 \<le> m" using assms(1) c l by simp
  have sur: "q = 13 \<Longrightarrow> m < 32"
    using assms(3) c m l unfolding scalar_value_def by simp
  have v: "q * 4096 + m * 64 + l = c" using c by simp
  show ?thesis
    unfolding d using step_3_core [OF h m l low sur, of r] unfolding v .
qed

lemma step_4_core:
  assumes g: "g \<le> 4" and h: "h < 64" and m: "m < 64" and l: "l < 64"
    and low: "g = 0 \<Longrightarrow> 16 \<le> h" and top: "g = 4 \<Longrightarrow> h < 16"
  shows "utf8_step (of_nat (0xF0 + g) # of_nat (0x80 + h) # of_nat (0x80 + m) #
                    of_nat (0x80 + l) # r) =
           Some (g * 262144 + h * 4096 + m * 64 + l, r)"
proof -
  from g have "0xF0 + g < 256" by simp
  then have a: "unat (of_nat (0xF0 + g) :: byte) = 0xF0 + g"
    by (rule unat_byte)
  note th = tail_byte [OF h] and tm = tail_byte [OF m] and tl = tail_byte [OF l]
  have c1: "(if 0xF0 + g = 0xF0 then 0x90 else 0x80) \<le> (0x80 + h :: nat)"
    using low by (cases "g = 0") simp_all
  have c2: "(0x80 + h :: nat) \<le> (if 0xF0 + g = 0xF4 then 0x8F else 0xBF)"
    using top h by (cases "g = 4") simp_all
  have r1: "\<not> 0xF0 + g < (0x80 :: nat)" by simp
  have r2: "\<not> (0xC2 \<le> 0xF0 + g \<and> 0xF0 + g \<le> (0xDF :: nat))" by simp
  have r3: "\<not> (0xE0 \<le> 0xF0 + g \<and> 0xF0 + g \<le> (0xEF :: nat))" by simp
  have r4: "0xF0 \<le> 0xF0 + g \<and> 0xF0 + g \<le> (0xF4 :: nat)" using g by simp
  have r5: "0xF0 + g - 0xF0 = g" by simp
  show ?thesis
    unfolding utf8_step_def list.case Let_def a
    by (simp only: r1 r2 r3 r4 r5 c1 c2 th tm tl if_True if_False simp_thms)
qed

lemma step_4:
  assumes "0x10000 \<le> c" "scalar_value c"
  shows "utf8_step (of_nat (0xF0 + c div 262144) # of_nat (0x80 + c div 4096 mod 64) #
                    of_nat (0x80 + c div 64 mod 64) # of_nat (0x80 + c mod 64) # r) = Some (c, r)"
proof -
  obtain q m l where c: "c = (q * 64 + m) * 64 + l" and m: "m < 64" and l: "l < 64"
    and d: "c div 4096 = q" "c div 64 mod 64 = m" "c mod 64 = l"
    by (rule base64_digits)
  define g where "g = q div 64"
  define h where "h = q mod 64"
  have q: "q = g * 64 + h" and h: "h < 64" by (simp_all add: g_def h_def)
  have dg: "c div 262144 = g"
  proof -
    have "c div 262144 = c div 4096 div 64" by (simp add: div_mult2_eq)
    then show ?thesis by (simp add: d g_def)
  qed
  have lt: "c < 0x110000" using assms unfolding scalar_value_def by simp
  have g: "g \<le> 4" using lt c q by simp
  have low: "g = 0 \<Longrightarrow> 16 \<le> h" using assms(1) c q m l by simp
  have top: "g = 4 \<Longrightarrow> h < 16" using lt c q by simp
  have v: "g * 262144 + h * 4096 + m * 64 + l = c" using c q by simp
  have dh: "c div 4096 mod 64 = h" by (simp add: d h_def)
  show ?thesis
    unfolding dg dh d(2,3) using step_4_core [OF g h m l low top, of r] unfolding v .
qed

lemma step_encode_char:
  "scalar_value c \<Longrightarrow> utf8_step (encode_char c @ r) = Some (c, r)"
  unfolding encode_char_def
  by (cases "c < 0x80"; cases "c < 0x800"; cases "c < 0x10000")
     (simp_all add: step_1 step_2 step_3 step_4 del: of_nat_add)

lemma encode_char_not_empty: "encode_char c \<noteq> []"
  by (simp add: encode_char_def)

lemma decode_encode_char:
  assumes "scalar_value c"
  shows "decode_utf8 (encode_char c @ r) = map_option ((#) c) (decode_utf8 r)"
proof -
  have ne: "encode_char c @ r \<noteq> []"
    using encode_char_not_empty by simp
  show ?thesis
    by (subst decode_utf8.simps) (simp only: ne step_encode_char [OF assms] if_False option.case prod.case)
qed

lemma decode_encode:
  "\<forall>c \<in> set s. scalar_value c \<Longrightarrow> decode_utf8 (encode_utf8 s) = Some s"
proof (induction s)
  case Nil
  show ?case by (subst decode_utf8.simps) (simp add: encode_utf8_def)
next
  case (Cons c s)
  then have c: "scalar_value c" and ih: "decode_utf8 (encode_utf8 s) = Some s"
    by simp_all
  have "encode_utf8 (c # s) = encode_char c @ encode_utf8 s"
    by (simp add: encode_utf8_def)
  then show ?case
    by (simp add: decode_encode_char [OF c] ih)
qed

subsection \<open>Decoding only what the encoder produces\<close>

lemma digit_split:
  "l < 64 \<Longrightarrow> (x * 64 + l) div 64 = x \<and> (x * 64 + l) mod 64 = (l :: nat)"
  by simp

lemma encode_1: "c < 0x80 \<Longrightarrow> encode_char c = [of_nat c] \<and> scalar_value c"
  by (simp add: encode_char_def scalar_value_def)

lemma encode_2:
  assumes "2 \<le> h" "h < 32" "l < 64"
  shows "encode_char (h * 64 + l) = [of_nat (0xC0 + h), of_nat (0x80 + l)] \<and>
         scalar_value (h * 64 + l)"
proof -
  have d: "(h * 64 + l) div 64 = h" "(h * 64 + l) mod 64 = l"
    using assms by simp_all
  have lo: "\<not> h * 64 + l < 0x80" and hi: "h * 64 + l < 0x800"
    using assms by simp_all
  have sc: "scalar_value (h * 64 + l)"
    unfolding scalar_value_def using hi by simp
  show ?thesis
    unfolding encode_char_def d using lo hi sc by (simp only: if_True if_False simp_thms)
qed

lemma encode_3:
  assumes h: "h < 16" and m: "m < 64" and l: "l < 64"
    and low: "h = 0 \<Longrightarrow> 32 \<le> m" and sur: "h = 13 \<Longrightarrow> m < 32"
  shows "encode_char (h * 4096 + m * 64 + l) =
           [of_nat (0xE0 + h), of_nat (0x80 + m), of_nat (0x80 + l)] \<and>
         scalar_value (h * 4096 + m * 64 + l)"
proof -
  define c where "c = h * 4096 + m * 64 + l"
  have c: "c = (h * 64 + m) * 64 + l" by (simp add: c_def)
  have d3: "c mod 64 = l" unfolding c by (rule digit_split [OF l, THEN conjunct2])
  have q: "c div 64 = h * 64 + m" unfolding c by (rule digit_split [OF l, THEN conjunct1])
  have d2: "c div 64 mod 64 = m" unfolding q by (rule digit_split [OF m, THEN conjunct2])
  have "c div 4096 = c div 64 div 64" by (simp add: div_mult2_eq)
  also have "\<dots> = h" unfolding q by (rule digit_split [OF m, THEN conjunct1])
  finally have d1: "c div 4096 = h" .
  have lo: "\<not> c < 0x80" "\<not> c < 0x800"
    using low m l unfolding c_def by (cases "h = 0"; simp)+
  have hi: "c < 0x10000" using h m l unfolding c_def by simp
  have sc: "scalar_value c"
    unfolding scalar_value_def c_def using sur h m l by (cases "h = 13"; cases "h < 13"; simp)
  show ?thesis
    unfolding c_def [symmetric] encode_char_def d1 d2 d3
    using lo hi sc by (simp only: if_True if_False simp_thms)
qed

lemma encode_4:
  assumes g: "g \<le> 4" and h: "h < 64" and m: "m < 64" and l: "l < 64"
    and low: "g = 0 \<Longrightarrow> 16 \<le> h" and top: "g = 4 \<Longrightarrow> h < 16"
  shows "encode_char (g * 262144 + h * 4096 + m * 64 + l) =
           [of_nat (0xF0 + g), of_nat (0x80 + h), of_nat (0x80 + m), of_nat (0x80 + l)] \<and>
         scalar_value (g * 262144 + h * 4096 + m * 64 + l)"
proof -
  define c where "c = g * 262144 + h * 4096 + m * 64 + l"
  have c: "c = ((g * 64 + h) * 64 + m) * 64 + l" by (simp add: c_def)
  have d4: "c mod 64 = l" unfolding c by (rule digit_split [OF l, THEN conjunct2])
  have q: "c div 64 = (g * 64 + h) * 64 + m"
    unfolding c by (rule digit_split [OF l, THEN conjunct1])
  have d3: "c div 64 mod 64 = m" unfolding q by (rule digit_split [OF m, THEN conjunct2])
  have q2: "c div 64 div 64 = g * 64 + h"
    unfolding q by (rule digit_split [OF m, THEN conjunct1])
  have "c div 4096 = c div 64 div 64" by (simp add: div_mult2_eq)
  then have q2': "c div 4096 = g * 64 + h" unfolding q2 .
  have d2: "c div 4096 mod 64 = h" unfolding q2' by (rule digit_split [OF h, THEN conjunct2])
  have "c div 262144 = c div 4096 div 64" by (simp add: div_mult2_eq)
  also have "\<dots> = g" unfolding q2' by (rule digit_split [OF h, THEN conjunct1])
  finally have d1: "c div 262144 = g" .
  have lo: "\<not> c < 0x80" "\<not> c < 0x800" "\<not> c < 0x10000"
    using low h m l unfolding c_def by (cases "g = 0"; simp)+
  have hi: "c < 0x110000"
    using top g h m l unfolding c_def by (cases "g = 4"; simp)
  have sc: "scalar_value c"
    unfolding scalar_value_def using lo(3) hi by simp
  show ?thesis
    unfolding c_def [symmetric] encode_char_def d1 d2 d3 d4
    using lo sc by (simp only: if_True if_False simp_thms)
qed


lemma cont_byte:
  "continuation b \<Longrightarrow> tail_bits b < 64 \<and> b = of_nat (0x80 + tail_bits b)"
proof -
  assume "continuation b"
  then have r: "0x80 \<le> unat b" "unat b \<le> 0xBF"
    by (simp_all add: continuation_def)
  then have "0x80 + tail_bits b = unat b" and "tail_bits b < 64"
    by (simp_all add: tail_bits_def)
  then show ?thesis by (simp del: of_nat_add)
qed

lemma step_inv_1:
  assumes "utf8_step (b0 # r0) = Some (c, r)" "unat b0 < 0x80"
  shows "c = unat b0 \<and> r = r0"
  using assms by (simp add: utf8_step_def Let_def)

lemma step_inv_2:
  assumes "utf8_step (b0 # r0) = Some (c, r)" "0xC2 \<le> unat b0" "unat b0 \<le> 0xDF"
  obtains b1 where "r0 = b1 # r" "continuation b1"
    "c = (unat b0 - 0xC0) * 64 + tail_bits b1"
  using assms by (cases r0) (simp_all add: utf8_step_def Let_def split: if_splits)

lemma step_inv_3:
  assumes "utf8_step (b0 # r0) = Some (c, r)" "0xE0 \<le> unat b0" "unat b0 \<le> 0xEF"
  obtains b1 b2 where "r0 = b1 # b2 # r" "continuation b1" "continuation b2"
    "unat b0 = 0xE0 \<Longrightarrow> 0xA0 \<le> unat b1" "unat b0 = 0xED \<Longrightarrow> unat b1 \<le> 0x9F"
    "c = (unat b0 - 0xE0) * 4096 + tail_bits b1 * 64 + tail_bits b2"
proof (cases r0)
  case Nil
  with assms show ?thesis by (simp add: utf8_step_def Let_def)
next
  case r0: (Cons b1 r1)
  show ?thesis
  proof (cases r1)
    case Nil
    with r0 assms show ?thesis by (simp add: utf8_step_def Let_def)
  next
    case (Cons b2 r2)
    with r0 assms that [of b1 b2] show ?thesis
      by (simp add: utf8_step_def Let_def continuation_def split: if_splits)
  qed
qed

lemma step_inv_4:
  assumes "utf8_step (b0 # r0) = Some (c, r)" "0xF0 \<le> unat b0" "unat b0 \<le> 0xF4"
  obtains b1 b2 b3 where "r0 = b1 # b2 # b3 # r"
    "continuation b1" "continuation b2" "continuation b3"
    "unat b0 = 0xF0 \<Longrightarrow> 0x90 \<le> unat b1" "unat b0 = 0xF4 \<Longrightarrow> unat b1 \<le> 0x8F"
    "c = (unat b0 - 0xF0) * 262144 + tail_bits b1 * 4096 + tail_bits b2 * 64 + tail_bits b3"
proof (cases r0)
  case Nil
  with assms show ?thesis by (simp add: utf8_step_def Let_def)
next
  case r0: (Cons b1 r1)
  show ?thesis
  proof (cases r1)
    case Nil
    with r0 assms show ?thesis by (simp add: utf8_step_def Let_def)
  next
    case r1: (Cons b2 r2)
    show ?thesis
    proof (cases r2)
      case Nil
      with r0 r1 assms show ?thesis by (simp add: utf8_step_def Let_def)
    next
      case (Cons b3 r3)
      with r0 r1 assms that [of b1 b2 b3] show ?thesis
        by (simp add: utf8_step_def Let_def continuation_def split: if_splits)
    qed
  qed
qed

lemma step_lead:
  assumes "utf8_step (b0 # r0) = Some (c, r)"
  shows "unat b0 < 0x80 \<or> (0xC2 \<le> unat b0 \<and> unat b0 \<le> 0xDF) \<or>
         (0xE0 \<le> unat b0 \<and> unat b0 \<le> 0xEF) \<or> (0xF0 \<le> unat b0 \<and> unat b0 \<le> 0xF4)"
proof (rule ccontr)
  assume "\<not> ?thesis"
  then have n: "\<not> unat b0 < 0x80" "\<not> (0xC2 \<le> unat b0 \<and> unat b0 \<le> 0xDF)"
    "\<not> (0xE0 \<le> unat b0 \<and> unat b0 \<le> 0xEF)" "\<not> (0xF0 \<le> unat b0 \<and> unat b0 \<le> 0xF4)"
    by blast+
  have "utf8_step (b0 # r0) = None"
    unfolding utf8_step_def list.case Let_def by (simp only: n if_False)
  with assms show False by simp
qed


lemma utf8_step_encodes:
  assumes st: "utf8_step bs = Some (c, r)"
  shows "scalar_value c \<and> bs = encode_char c @ r"
proof -
  from st obtain b0 r0 where bs: "bs = b0 # r0"
    by (cases bs) (simp_all add: utf8_step_def)
  define a where "a = unat b0"
  have b0: "b0 = of_nat a" by (simp add: a_def)
  note st' = st [unfolded bs]
  from step_lead [OF st'] consider
    "a < 0x80" | "0xC2 \<le> a" "a \<le> 0xDF" | "0xE0 \<le> a" "a \<le> 0xEF" | "0xF0 \<le> a" "a \<le> 0xF4"
    unfolding a_def by blast
  then show ?thesis
  proof cases
    case 1
    from step_inv_1 [OF st'] 1 have "c = a" "r = r0" by (simp_all add: a_def)
    with encode_1 [OF 1] show ?thesis by (simp add: bs b0)
  next
    case 2
    from step_inv_2 [OF st' 2 [unfolded a_def]] obtain b1 where
      r0: "r0 = b1 # r" and c1: "continuation b1"
      and c: "c = (a - 0xC0) * 64 + tail_bits b1"
      unfolding a_def by blast
    note t1 = cont_byte [OF c1]
    have h: "2 \<le> a - 0xC0" "a - 0xC0 < 32" "0xC0 + (a - 0xC0) = a" using 2 by simp_all
    from encode_2 [OF h(1,2) t1 [THEN conjunct1]] show ?thesis
      unfolding c [symmetric] h(3) bs r0 using b0 t1 by simp
  next
    case 3
    from step_inv_3 [OF st' 3 [unfolded a_def]] obtain b1 b2 where
      r0: "r0 = b1 # b2 # r" and c1: "continuation b1" and c2: "continuation b2"
      and low: "a = 0xE0 \<Longrightarrow> 0xA0 \<le> unat b1" and sur: "a = 0xED \<Longrightarrow> unat b1 \<le> 0x9F"
      and c: "c = (a - 0xE0) * 4096 + tail_bits b1 * 64 + tail_bits b2"
      unfolding a_def by blast
    note t1 = cont_byte [OF c1] and t2 = cont_byte [OF c2]
    have h: "a - 0xE0 < 16" "0xE0 + (a - 0xE0) = a" using 3 by simp_all
    have low': "a - 0xE0 = 0 \<Longrightarrow> 32 \<le> tail_bits b1"
      using low 3 by (simp add: tail_bits_def)
    have sur': "tail_bits b1 < 32" if "a - 0xE0 = 13"
    proof -
      from that 3 have "a = 0xED" by simp
      from sur [OF this] show ?thesis by (simp add: tail_bits_def)
    qed
    from encode_3 [OF h(1) t1 [THEN conjunct1] t2 [THEN conjunct1] low' sur'] show ?thesis
      unfolding c [symmetric] h(2) bs r0 using b0 t1 t2 by simp
  next
    case 4
    from step_inv_4 [OF st' 4 [unfolded a_def]] obtain b1 b2 b3 where
      r0: "r0 = b1 # b2 # b3 # r"
      and c1: "continuation b1" and c2: "continuation b2" and c3: "continuation b3"
      and low: "a = 0xF0 \<Longrightarrow> 0x90 \<le> unat b1" and top: "a = 0xF4 \<Longrightarrow> unat b1 \<le> 0x8F"
      and c: "c = (a - 0xF0) * 262144 + tail_bits b1 * 4096 + tail_bits b2 * 64 + tail_bits b3"
      unfolding a_def by blast
    note t1 = cont_byte [OF c1] and t2 = cont_byte [OF c2] and t3 = cont_byte [OF c3]
    have h: "a - 0xF0 \<le> 4" "0xF0 + (a - 0xF0) = a" using 4 by simp_all
    have low': "a - 0xF0 = 0 \<Longrightarrow> 16 \<le> tail_bits b1"
      using low 4 by (simp add: tail_bits_def)
    have top': "tail_bits b1 < 16" if "a - 0xF0 = 4"
    proof -
      from that 4 have "a = 0xF4" by simp
      from top [OF this] show ?thesis by (simp add: tail_bits_def)
    qed
    from encode_4 [OF h(1) t1 [THEN conjunct1] t2 [THEN conjunct1] t3 [THEN conjunct1] low' top']
    show ?thesis
      unfolding c [symmetric] h(2) bs r0 using b0 t1 t2 t3 by simp
  qed
qed

lemma decode_is_encoding:
  "decode_utf8 bs = Some s \<Longrightarrow> (\<forall>c \<in> set s. scalar_value c) \<and> encode_utf8 s = bs"
proof (induction bs arbitrary: s rule: decode_utf8.induct)
  case (1 bs)
  show ?case
  proof (cases "bs = []")
    case True
    with "1.prems" show ?thesis
      by (simp add: decode_utf8.simps encode_utf8_def)
  next
    case False
    with "1.prems" obtain c r where st: "utf8_step bs = Some (c, r)"
      by (subst (asm) decode_utf8.simps) (auto split: option.splits)
    with False "1.prems" obtain s' where d: "decode_utf8 r = Some s'" and s: "s = c # s'"
      by (subst (asm) decode_utf8.simps) auto
    from "1.IH" [OF False st refl d] have ih: "\<forall>c \<in> set s'. scalar_value c" "encode_utf8 s' = r"
      by simp_all
    from utf8_step_encodes [OF st] ih show ?thesis
      by (simp add: s encode_utf8_def)
  qed
qed

lemma invalid_utf8_raises:
  "\<not> (\<exists>s. (\<forall>c \<in> set s. scalar_value c) \<and> encode_utf8 s = line) \<Longrightarrow> decode_utf8 line = None"
  using decode_is_encoding [of line] by (cases "decode_utf8 line") auto

subsection \<open>Stripping and reading\<close>

lemma strip_parts:
  obtains before after where
    "s = before @ py_strip s @ after"
    "\<forall>c \<in> set before. py_isspace c" "\<forall>c \<in> set after. py_isspace c"
    "py_strip s \<noteq> [] \<Longrightarrow> \<not> py_isspace (hd (py_strip s)) \<and> \<not> py_isspace (last (py_strip s))"
proof
  let ?u = "dropWhile py_isspace s"
  let ?before = "takeWhile py_isspace s"
  let ?after = "rev (takeWhile py_isspace (rev ?u))"
  have u: "?u = py_strip s @ ?after"
  proof -
    have "py_strip s @ ?after =
        rev (takeWhile py_isspace (rev ?u) @ dropWhile py_isspace (rev ?u))"
      by (simp only: py_strip_def rev_append)
    also have "\<dots> = rev (rev ?u)"
      by (simp only: takeWhile_dropWhile_id)
    finally show ?thesis by simp
  qed
  have "s = ?before @ ?u" by simp
  with u show "s = ?before @ py_strip s @ ?after" by simp
  show "\<forall>c \<in> set ?before. py_isspace c"
    by (auto dest: set_takeWhileD)
  show "\<forall>c \<in> set ?after. py_isspace c"
    by (auto dest: set_takeWhileD)
  show "\<not> py_isspace (hd (py_strip s)) \<and> \<not> py_isspace (last (py_strip s))"
    if ne: "py_strip s \<noteq> []"
  proof
    from u have "hd ?u = hd (py_strip s @ ?after)" by (rule arg_cong)
    also from ne have "\<dots> = hd (py_strip s)" by (rule hd_append2)
    finally have h: "hd ?u = hd (py_strip s)" .
    have "?u \<noteq> []"
    proof
      assume "?u = []"
      with u have "py_strip s @ ?after = []" by (simp only:)
      with ne show False by simp
    qed
    from hd_dropWhile [OF this] show "\<not> py_isspace (hd (py_strip s))"
      unfolding h .
    from ne have d: "dropWhile py_isspace (rev ?u) \<noteq> []"
      by (simp add: py_strip_def)
    then have "last (py_strip s) = hd (dropWhile py_isspace (rev ?u))"
      by (simp add: py_strip_def last_rev)
    with hd_dropWhile [OF d] show "\<not> py_isspace (last (py_strip s))"
      by simp
  qed
qed

lemma read_lines_raises:
  "decode_utf8 line = None \<Longrightarrow>
   read_lines reason (line # later) container_log =
     (Some (UnicodeDecodeError (reason line)), container_log)"
  by (simp add: forward_line_def)

section \<open>Properties of the startup and of main\<close>

subsection \<open>What populate_startup_variables raises\<close>

lemma reraise_is_value_error: "\<exists>m. reraise_startup err = ValueError m"
  by (cases err) simp_all

lemma populate_raises_value_error:
  "populate_startup_variables r l = Inl err \<Longrightarrow> \<exists>m. err = ValueError m"
  unfolding populate_startup_variables_def
  using reraise_is_value_error by (auto split: sum.splits)

lemma require_key_dict:
  "require_key key shown lineno (YDict items) =
     (if key \<in> set (map fst items) then Inr ()
      else Inl (ValueError ([CHR ''T'', CHR ''h'', CHR ''e'', CHR '' '', CHR 0x27] @ shown @
                            [CHR 0x27] @
                            '' key is missing from the YAML file, Originating error on line '' @
                            lineno @ '' in <'' @ this_module @ ''>'')))"
  by (simp add: require_key_def and_then_def)

lemma populate_missing_key:
  assumes "\<not> {''general'', ''docker_container'', ''email'', ''logging''} \<subseteq> set (map fst items)"
  shows "\<exists>m. populate_startup_variables (Inr (YDict items)) l = Inl (ValueError m)"
proof -
  have "\<exists>err. populate_startup_variables (Inr (YDict items)) l = Inl err"
    using assms
    unfolding populate_startup_variables_def
    by (auto simp: and_then_def require_key_dict split: sum.splits)
  then obtain err where e: "populate_startup_variables (Inr (YDict items)) l = Inl err" ..
  from populate_raises_value_error [OF e] e show ?thesis by blast
qed

lemma populate_not_a_mapping:
  assumes "config = YNone \<or> (\<exists>b. config = YBool b) \<or> (\<exists>i. config = YInt i)"
  shows "\<exists>m. populate_startup_variables (Inr config) l = Inl (ValueError m)"
proof -
  have "\<exists>err. populate_startup_variables (Inr config) l = Inl err"
    using assms
    unfolding populate_startup_variables_def
    by (auto simp: and_then_def require_key_def split: sum.splits)
  then obtain err where e: "populate_startup_variables (Inr config) l = Inl err" ..
  from populate_raises_value_error [OF e] e show ?thesis by blast
qed

lemma populate_without_email:
  "populate_startup_variables (Inr config_without_email) settings_loaded =
     Inl (ValueError (''The '' @ [CHR 0x27] @ ''email'' @ [CHR 0x27] @
       '' key is missing from the YAML file, Originating error on line 249 in <__main__>, Error on line414 in <__main__>''))"
  by (simp add: populate_startup_variables_def config_without_email_def and_then_def
      require_key_dict this_module_def)

subsection \<open>The error handler of main\<close>

lemma world_of_log_to_root [simp]:
  "world_of (log_to_root lv msg p) = log_call lv msg (world_of p)"
  "stdout (log_to_root lv msg p) = stdout p"
  "outbox (log_to_root lv msg p) = outbox p"
  by (simp_all add: log_to_root_def)

lemma print_line_fields [simp]:
  "world_of (print_line s p) = world_of p"
  "stdout (print_line s p) = stdout p @ [s]"
  "outbox (print_line s p) = outbox p"
  by (simp_all add: print_line_def)

lemma exit_on_error_ending: "fst (exit_on_error env sv err lineno p) = Exits"
  by (simp add: exit_on_error_def Let_def)

lemma exit_on_error_stdout:
  "stdout (snd (exit_on_error env sv err lineno p)) =
     stdout p @
     [now env 0 @ ''|Error|'' @ str_exn err @ '', Error on line '' @ lineno @ '' in <'' @
        this_module @ ''>'',
      now env 1 @ ''|Error|'' @ str_exn err,
      now env 2 @
        ''|Info|See log for more details. You may need to enable debugging for more information.'']"
  by (simp add: exit_on_error_def Let_def split: option.splits)

lemma exit_on_error_outbox:
  "outbox (snd (exit_on_error env sv err lineno p)) =
     outbox p @
     (if alert_program_errors sv \<and> email_alerts sv
      then [(''Docker Log Redirect Program Issue Occured'',
             now env 3 @ ''|Error|Exception Thrown|'' @ str_exn err)]
      else [])"
  by (simp add: exit_on_error_def Let_def split: option.splits)

lemma exit_on_error_log:
  "root_log (world_of (snd (exit_on_error env sv err lineno p))) =
     root_log (world_of p) @ [(ERROR, str_exn err)] @
     (if alert_program_errors sv \<and> email_alerts sv then
        (ERROR, ''Sending email notification'') #
        (case send_email env (email_settings sv) ''Docker Log Redirect Program Issue Occured''
                (now env 3 @ ''|Error|Exception Thrown|'' @ str_exn err) of
           None \<Rightarrow> []
         | Some mail_err \<Rightarrow> [(ERROR, str_exn mail_err)])
      else if \<not> alert_program_errors sv then
        [(DEBUG, ''The user chooses not to send program errors to email'')]
      else
        [(ERROR,
          ''The user did not choose an option on sending program errors to email. Continuing to exit'')]) @
     [(ERROR, ''Exiting because of the exception error....'')]"
  by (simp add: exit_on_error_def Let_def split: option.splits)

lemma main_pass_raises:
  assumes sv: "populate_startup_variables (read_yaml_config env) (load_settings env) = Inr sv"
    and pass: "create_docker_log_threads (starter env) (docker_container_loggers sv)
                 (world_of (banner p)) = (Inl err, w)"
    and caught: "is_value_error err"
  shows "main env p = exit_on_error env sv err ''440'' ((banner p)\<lparr>world_of := w\<rparr>)"
  unfolding main_def sv by (simp add: Let_def pass caught)

lemma main_notify_raises:
  assumes sv: "populate_startup_variables (read_yaml_config env) (load_settings env) = Inr sv"
    and pass: "create_docker_log_threads (starter env) (docker_container_loggers sv)
                 (world_of (banner p)) = (Inr thread_status, w)"
    and mail: "notify_all env sv (length thread_status) thread_status
                 ((banner p)\<lparr>world_of := w\<rparr>) = (Some err, p2)"
    and caught: "is_value_error err"
  shows "main env p = exit_on_error env sv err ''463'' p2"
  unfolding main_def sv by (simp add: Let_def pass mail caught)

lemma is_value_error_iff:
  "is_value_error err \<longleftrightarrow> (\<exists>m. err = ValueError m \<or> err = UnicodeDecodeError m)"
  by (cases err) (simp_all add: is_value_error_def)

lemma populate_complete:
  "populate_startup_variables (Inr complete_config) settings_loaded = Inr loaded_settings"
  by (simp add: populate_startup_variables_def complete_config_def and_then_def
      require_key_dict settings_loaded_def)

subsection \<open>A container whose watcher name is found among the live threads\<close>

text \<open>
  Claim C3. When the derived watcher name of a container is found in the rendering of the
  live threads at the start of its loop iteration, the iteration appends nothing to the
  tracker (no \<open>Started\<close>, no \<open>Failed\<close>), starts no thread and only logs: the debug
  line every iteration writes and the "still running" line. The loop then moves on: the
  rest of the pass is the pass over the remaining containers, from the same tracker and
  threads. Hence a pass over containers whose watchers are all alive returns the empty
  list.
\<close>

theorem active_watcher_no_result:
  "(py_in (thread_name_of (fst dc)) (str_threads (live w)) \<longrightarrow>
      fst (watch_container start dc trk w) = Inr trk \<and>
      live (snd (watch_container start dc trk w)) = live w \<and>
      root_log (snd (watch_container start dc trk w)) =
        root_log w @
        [(DEBUG, ''The thread ('' @ thread_name_of (fst dc) @ '') is being created for '' @
                 replace_spaces (fst dc)),
         (INFO, ''The thread ('' @ thread_name_of (fst dc) @ '') is still running for '' @
                replace_spaces (fst dc) @ ''. No action required'')]) \<and>
   (py_in (thread_name_of (fst dc)) (str_threads (live w)) \<longrightarrow>
      watch_all start (dc # rest) trk w =
        watch_all start rest trk
          \<lparr>live = live w,
           root_log = root_log w @
             [(DEBUG, ''The thread ('' @ thread_name_of (fst dc) @ '') is being created for '' @
                      replace_spaces (fst dc)),
              (INFO, ''The thread ('' @ thread_name_of (fst dc) @ '') is still running for '' @
                     replace_spaces (fst dc) @ ''. No action required'')]\<rparr>) \<and>
   ((\<forall>d \<in> set dcs. py_in (thread_name_of (fst d)) (str_threads (live w))) \<longrightarrow>
      fst (create_docker_log_threads start dcs w) = Inr [] \<and>
      live (snd (create_docker_log_threads start dcs w)) = live w)"
proof (intro conjI impI)
  assume act: "py_in (thread_name_of (fst dc)) (str_threads (live w))"
  show "fst (watch_container start dc trk w) = Inr trk"
    by (simp add: watch_container_active [OF act])
  show "live (snd (watch_container start dc trk w)) = live w"
    by (simp add: watch_container_active [OF act])
  show "root_log (snd (watch_container start dc trk w)) =
        root_log w @
        [(DEBUG, ''The thread ('' @ thread_name_of (fst dc) @ '') is being created for '' @
                 replace_spaces (fst dc)),
         (INFO, ''The thread ('' @ thread_name_of (fst dc) @ '') is still running for '' @
                replace_spaces (fst dc) @ ''. No action required'')]"
    by (simp add: watch_container_active [OF act])
next
  assume act: "py_in (thread_name_of (fst dc)) (str_threads (live w))"
  show "watch_all start (dc # rest) trk w =
        watch_all start rest trk
          \<lparr>live = live w,
           root_log = root_log w @
             [(DEBUG, ''The thread ('' @ thread_name_of (fst dc) @ '') is being created for '' @
                      replace_spaces (fst dc)),
              (INFO, ''The thread ('' @ thread_name_of (fst dc) @ '') is still running for '' @
                     replace_spaces (fst dc) @ ''. No action required'')]\<rparr>"
    by (simp add: watch_container_active [OF act] log_call_def world_log_only)
next
  assume all: "\<forall>d \<in> set dcs. py_in (thread_name_of (fst d)) (str_threads (live w))"
  let ?w0 = "log_call DEBUG ''Creating individual threads for each docker container'' w"
  have "\<forall>d \<in> set dcs. py_in (thread_name_of (fst d)) (str_threads (live ?w0))"
    using all by simp
  from watch_all_active [OF this, of start "[]"]
  show "fst (create_docker_log_threads start dcs w) = Inr []"
    and "live (snd (create_docker_log_threads start dcs w)) = live w"
    by (simp_all add: create_docker_log_threads_def)
qed

theorem active_watcher_no_result_witness:
  "py_in (thread_name_of ''web'') (str_threads (live after_first_pass)) \<and>
   py_in (thread_name_of ''db'') (str_threads (live after_first_pass)) \<and>
   fst (watch_container start_ok (''web'', ()) [] after_first_pass) = Inr [] \<and>
   live (snd (watch_container start_ok (''web'', ()) [] after_first_pass)) = live after_first_pass \<and>
   fst (create_docker_log_threads start_ok two_containers after_first_pass) = Inr [] \<and>
   live (snd (create_docker_log_threads start_ok two_containers after_first_pass)) =
     live after_first_pass \<and>
   py_in (thread_name_of ''web'') (str_threads (live web_alive)) \<and>
   fst (watch_all start_ok two_containers [] web_alive) = Inr [status_entry ''Started'' ''db''] \<and>
   map t_name (live (snd (watch_all start_ok two_containers [] web_alive))) =
     [''MainThread'', ''web_thread'', ''db_thread'']"
proof -
  have a: "py_in (thread_name_of ''web'') (str_threads (live after_first_pass))"
    by code_simp
  have b: "py_in (thread_name_of ''db'') (str_threads (live after_first_pass))"
    by code_simp
  have all: "\<forall>d \<in> set two_containers.
               py_in (thread_name_of (fst d)) (str_threads (live after_first_pass))"
    using a b by (simp add: two_containers_def)
  note inst = active_watcher_no_result
    [where dc = "(''web'', ())" and w = after_first_pass and start = start_ok and trk = "[]" and
      dcs = two_containers]
  have c: "fst (watch_container start_ok (''web'', ()) [] after_first_pass) = Inr []"
    and d: "live (snd (watch_container start_ok (''web'', ()) [] after_first_pass)) =
        live after_first_pass"
    using inst a by simp_all
  have e: "fst (create_docker_log_threads start_ok two_containers after_first_pass) = Inr []"
    and f: "live (snd (create_docker_log_threads start_ok two_containers after_first_pass)) =
        live after_first_pass"
    using inst all by blast+
  have g: "py_in (thread_name_of ''web'') (str_threads (live web_alive))"
    by code_simp
  have moved: "watch_all start_ok two_containers [] web_alive =
      watch_all start_ok [(''db'', ())] []
        \<lparr>live = live web_alive,
         root_log = root_log web_alive @
           [(DEBUG, ''The thread ('' @ thread_name_of ''web'' @ '') is being created for '' @
                    replace_spaces ''web''),
            (INFO, ''The thread ('' @ thread_name_of ''web'' @ '') is still running for '' @
                   replace_spaces ''web'' @ ''. No action required'')]\<rparr>"
    using active_watcher_no_result
      [where dc = "(''web'', ())" and w = web_alive and start = start_ok and trk = "[]" and
        rest = "[(''db'', ())]"] g
    by (simp add: two_containers_def)
  have h: "fst (watch_all start_ok two_containers [] web_alive) =
      Inr [status_entry ''Started'' ''db'']"
    unfolding moved by code_simp
  have i: "map t_name (live (snd (watch_all start_ok two_containers [] web_alive))) =
     [''MainThread'', ''web_thread'', ''db_thread'']"
    unfolding moved by code_simp
  from a b c d e f g h i show ?thesis by (intro conjI)
qed

subsection \<open>An error raised while starting a thread\<close>

text \<open>
  A starter that raises for \<open>web\<close>, in a pass over \<open>web\<close> and \<open>db\<close>: the pass
  ends with the \<open>ValueError\<close>, not with a \<open>Failed\<close> entry for \<open>web\<close> and a
  \<open>Started\<close> entry for \<open>db\<close>; no thread is started and nothing is logged at error
  level.
\<close>

theorem spawn_error_aborts_pass_counterexample:
  "fst (create_docker_log_threads (start_raises_for ''web'') two_containers fresh_world) =
     Inl (ValueError ''can't start new thread, Error on line 113 in <__main__>'') \<and>
   fst (create_docker_log_threads (start_raises_for ''web'') two_containers fresh_world) \<noteq>
     Inr [status_entry ''Failed'' ''web'', status_entry ''Started'' ''db''] \<and>
   live (snd (create_docker_log_threads (start_raises_for ''web'') two_containers fresh_world)) =
     [main_thread] \<and>
   root_log (snd (create_docker_log_threads (start_raises_for ''web'') two_containers fresh_world)) =
     [(DEBUG, ''Creating individual threads for each docker container''),
      (DEBUG, ''The thread (web_thread) is being created for web''),
      (INFO, ''Starting the docker container log capture for web'')]"
  by code_simp

text \<open>
  Claim C1, as amended. The source wraps the call of \<open>start_function_thread\<close> in a
  \<open>try\<close> whose two handlers both re-raise: an error raised by the call leaves the
  function as a \<open>ValueError\<close> carrying the error's text, no tracker is returned, the
  containers after it are not visited and nothing is logged at error level by the pass.
  A \<open>Failed\<close> entry is recorded in the other case, when the call returns and the derived
  name is still missing from the rendering of the live threads: the pass logs the failure
  and goes on with the remaining containers. The counterexample runs the pass over
  \<open>web\<close>, \<open>db\<close> with a starter that raises for \<open>web\<close>.
\<close>

theorem spawn_error_or_missing_thread:
  "(\<not> py_in (thread_name_of (fst dc)) (str_threads (live w)) \<and>
    start (replace_spaces (fst dc)) (snd dc) (thread_name_of (fst dc)) (live w) = (Some err, ts) \<longrightarrow>
      fst (watch_all start (dc # rest) trk w) =
        Inl (ValueError (str_exn err @ '', Error on line 113 in <'' @ this_module @ ''>'')) \<and>
      live (snd (watch_all start (dc # rest) trk w)) = ts \<and>
      root_log (snd (watch_all start (dc # rest) trk w)) =
        root_log w @
        [(DEBUG, ''The thread ('' @ thread_name_of (fst dc) @ '') is being created for '' @
                 replace_spaces (fst dc)),
         (INFO, ''Starting the docker container log capture for '' @ replace_spaces (fst dc))]) \<and>
   (\<not> py_in (thread_name_of (fst dc)) (str_threads (live w)) \<and>
    start (replace_spaces (fst dc)) (snd dc) (thread_name_of (fst dc)) (live w) = (None, ts) \<and>
    \<not> py_in (thread_name_of (fst dc)) (str_threads ts) \<longrightarrow>
      watch_all start (dc # rest) trk w =
        watch_all start rest (trk @ [status_entry ''Failed'' (replace_spaces (fst dc))])
          \<lparr>live = ts,
           root_log = root_log w @
             [(DEBUG, ''The thread ('' @ thread_name_of (fst dc) @ '') is being created for '' @
                      replace_spaces (fst dc)),
              (INFO, ''Starting the docker container log capture for '' @ replace_spaces (fst dc)),
              (ERROR, ''Failed to start '' @ thread_name_of (fst dc) @ '' for '' @
                      replace_spaces (fst dc) @
                      ''. The program will continue, but additional troubleshooting will be required. The docker container may not be active.'')]\<rparr>)"
proof (intro conjI impI)
  assume a: "\<not> py_in (thread_name_of (fst dc)) (str_threads (live w)) \<and>
    start (replace_spaces (fst dc)) (snd dc) (thread_name_of (fst dc)) (live w) = (Some err, ts)"
  note r = watch_container_raises [where start = start and trk = trk, OF conjunct1 [OF a] conjunct2 [OF a]]
  show "fst (watch_all start (dc # rest) trk w) =
        Inl (ValueError (str_exn err @ '', Error on line 113 in <'' @ this_module @ ''>''))"
    by (simp add: r)
  show "live (snd (watch_all start (dc # rest) trk w)) = ts"
    by (simp add: r)
  show "root_log (snd (watch_all start (dc # rest) trk w)) =
        root_log w @
        [(DEBUG, ''The thread ('' @ thread_name_of (fst dc) @ '') is being created for '' @
                 replace_spaces (fst dc)),
         (INFO, ''Starting the docker container log capture for '' @ replace_spaces (fst dc))]"
    by (simp add: r)
next
  assume a: "\<not> py_in (thread_name_of (fst dc)) (str_threads (live w)) \<and>
    start (replace_spaces (fst dc)) (snd dc) (thread_name_of (fst dc)) (live w) = (None, ts) \<and>
    \<not> py_in (thread_name_of (fst dc)) (str_threads ts)"
  then have a1: "\<not> py_in (thread_name_of (fst dc)) (str_threads (live w))"
    and a2: "start (replace_spaces (fst dc)) (snd dc) (thread_name_of (fst dc)) (live w) = (None, ts)"
    and a3: "\<not> py_in (thread_name_of (fst dc)) (str_threads ts)"
    by simp_all
  note f = watch_container_failed [where start = start and trk = trk, OF a1 a2 a3]
  show "watch_all start (dc # rest) trk w =
        watch_all start rest (trk @ [status_entry ''Failed'' (replace_spaces (fst dc))])
          \<lparr>live = ts,
           root_log = root_log w @
             [(DEBUG, ''The thread ('' @ thread_name_of (fst dc) @ '') is being created for '' @
                      replace_spaces (fst dc)),
              (INFO, ''Starting the docker container log capture for '' @ replace_spaces (fst dc)),
              (ERROR, ''Failed to start '' @ thread_name_of (fst dc) @ '' for '' @
                      replace_spaces (fst dc) @
                      ''. The program will continue, but additional troubleshooting will be required. The docker container may not be active.'')]\<rparr>"
    by (simp add: f log_call_def world_updates)
qed

theorem spawn_error_or_missing_thread_witness:
  "\<not> py_in (thread_name_of ''web'') (str_threads (live fresh_world)) \<and>
   start_raises_for ''web'' ''web'' () (thread_name_of ''web'') (live fresh_world) =
     (Some (OtherException ''can't start new thread''), [main_thread]) \<and>
   fst (watch_all (start_raises_for ''web'') two_containers [] fresh_world) =
     Inl (ValueError ''can't start new thread, Error on line 113 in <__main__>'') \<and>
   start_dies_for ''web'' ''web'' () (thread_name_of ''web'') (live fresh_world) =
     (None, [main_thread]) \<and>
   \<not> py_in (thread_name_of ''web'') (str_threads [main_thread]) \<and>
   fst (watch_all (start_dies_for ''web'') two_containers [] fresh_world) =
     Inr [status_entry ''Failed'' ''web'', status_entry ''Started'' ''db'']"
proof -
  have n: "\<not> py_in (thread_name_of ''web'') (str_threads (live fresh_world))"
    by code_simp
  have n': "\<not> py_in (thread_name_of ''web'') (str_threads [main_thread])"
    by code_simp
  have r: "start_raises_for ''web'' ''web'' () (thread_name_of ''web'') (live fresh_world) =
     (Some (OtherException ''can't start new thread''), [main_thread])"
    by (simp add: start_raises_for_def fresh_world_def)
  have d: "start_dies_for ''web'' ''web'' () (thread_name_of ''web'') (live fresh_world) =
     (None, [main_thread])"
    by (simp add: start_dies_for_def fresh_world_def)
  have rs: "replace_spaces ''web'' = ''web''"
    by (simp add: replace_spaces_def)
  have e: "fst (watch_all (start_raises_for ''web'') two_containers [] fresh_world) =
     Inl (ValueError ''can't start new thread, Error on line 113 in <__main__>'')"
    using n r rs
      spawn_error_or_missing_thread
        [where dc = "(''web'', ())" and w = fresh_world and start = "start_raises_for ''web''" and
          err = "OtherException ''can't start new thread''" and ts = "[main_thread]" and
          rest = "[(''db'', ())]" and trk = "[]"]
    by (simp add: two_containers_def this_module_def)
  have f: "fst (watch_all (start_dies_for ''web'') two_containers [] fresh_world) =
     Inr [status_entry ''Failed'' ''web'', status_entry ''Started'' ''db'']"
    by code_simp
  show ?thesis
    using n n' r d e f by simp
qed

subsection \<open>A pass in which every start succeeds\<close>

text \<open>
  Every start succeeds and only the main thread is alive, yet the pass over \<open>myapp\<close>,
  \<open>app\<close> returns one entry: \<open>app_thread\<close> is found inside \<open>myapp_thread\<close>.
\<close>

theorem one_started_per_container_counterexample:
  "always_starts (start_ok :: unit starter) \<and>
   map t_name (live fresh_world) = [''MainThread''] \<and>
   fst (create_docker_log_threads start_ok overlapping_pair fresh_world) =
     Inr [status_entry ''Started'' ''myapp''] \<and>
   fst (create_docker_log_threads start_ok overlapping_pair fresh_world) \<noteq>
     Inr [status_entry ''Started'' ''myapp'', status_entry ''Started'' ''app'']"
proof -
  have a: "always_starts (start_ok :: unit starter)"
    unfolding always_starts_def start_ok_def by blast
  have b: "map t_name (live fresh_world) = [''MainThread'']"
    by (simp add: fresh_world_def main_thread_def)
  have c: "fst (create_docker_log_threads start_ok overlapping_pair fresh_world) =
     Inr [status_entry ''Started'' ''myapp'']"
    by code_simp
  have d: "fst (create_docker_log_threads start_ok overlapping_pair fresh_world) \<noteq>
     Inr [status_entry ''Started'' ''myapp'', status_entry ''Started'' ''app'']"
    unfolding c by simp
  from a b c d show ?thesis by (intro conjI)
qed

text \<open>
  Claim C2, as amended. With some thread alive (the main thread always is), no watcher of
  the configured containers found at the start, every start succeeding, and no watcher
  name of a container occurring in the rendering of the watcher of an earlier container,
  the pass returns exactly one \<open>Started\<close> entry per container, in the configured
  order. Without the last condition the claim fails: for \<open>myapp\<close>, \<open>app\<close> the name
  \<open>app_thread\<close> is found inside \<open>myapp_thread\<close> and the second container gets no
  entry.
\<close>

theorem one_started_per_container:
  "always_starts start \<Longrightarrow> live w \<noteq> [] \<Longrightarrow>
   \<forall>dc \<in> set dcs. \<not> py_in (thread_name_of (fst dc)) (str_threads (live w)) \<Longrightarrow>
   no_name_overlap (map fst dcs) \<Longrightarrow>
   fst (create_docker_log_threads start dcs w) =
     Inr (map (\<lambda>dc. status_entry ''Started'' (replace_spaces (fst dc))) dcs)"
proof -
  assume ok: "always_starts start" and ne: "live w \<noteq> []"
    and fresh: "\<forall>dc \<in> set dcs. \<not> py_in (thread_name_of (fst dc)) (str_threads (live w))"
    and ov: "no_name_overlap (map fst dcs)"
  let ?w0 = "log_call DEBUG ''Creating individual threads for each docker container'' w"
  have ne0: "live ?w0 \<noteq> []" using ne by simp
  have fresh0: "\<forall>dc \<in> set dcs. \<not> py_in (thread_name_of (fst dc)) (str_threads (live ?w0))"
    using fresh by simp
  from watch_all_all_started [OF ok ne0 fresh0 ov, of "[]"]
  show ?thesis
    by (simp add: create_docker_log_threads_def)
qed

theorem one_started_per_container_witness:
  "always_starts (start_ok :: unit starter) \<and>
   live fresh_world \<noteq> [] \<and>
   \<not> py_in (thread_name_of ''web'') (str_threads (live fresh_world)) \<and>
   \<not> py_in (thread_name_of ''db'') (str_threads (live fresh_world)) \<and>
   no_name_overlap (map fst two_containers) \<and>
   fst (create_docker_log_threads start_ok two_containers fresh_world) =
     Inr [status_entry ''Started'' ''web'', status_entry ''Started'' ''db'']"
proof -
  have a: "always_starts (start_ok :: unit starter)"
    unfolding always_starts_def start_ok_def by blast
  have b: "live fresh_world \<noteq> []"
    by (simp add: fresh_world_def)
  have c1: "\<not> py_in (thread_name_of ''web'') (str_threads (live fresh_world))"
    by code_simp
  have c2: "\<not> py_in (thread_name_of ''db'') (str_threads (live fresh_world))"
    by code_simp
  have c: "\<forall>dc \<in> set two_containers.
      \<not> py_in (thread_name_of (fst dc)) (str_threads (live fresh_world))"
    using c1 c2 by (simp add: two_containers_def)
  have d: "no_name_overlap (map fst two_containers)"
    by code_simp
  have rs: "replace_spaces ''web'' = ''web''" "replace_spaces ''db'' = ''db''"
    by (simp_all add: replace_spaces_def)
  have e: "fst (create_docker_log_threads start_ok two_containers fresh_world) =
     Inr [status_entry ''Started'' ''web'', status_entry ''Started'' ''db'']"
    using one_started_per_container [OF a b c d]
    by (simp add: two_containers_def rs)
  from a b c1 c2 d e show ?thesis by (intro conjI)
qed

subsection \<open>Lines that are not valid UTF-8\<close>

text \<open>
  The line \<open>FF 0A\<close> is not valid UTF-8: the decode step raises, the reader ends with a
  \<open>ValueError\<close> and the container logger has received nothing.
\<close>

theorem strict_decode_counterexample:
  "decode_utf8 [0xFF, 0x0A] = None \<and>
   forward_line invalid_start [0xFF, 0x0A] [] = Inl (UnicodeDecodeError (invalid_start [0xFF, 0x0A])) \<and>
   fst (get_docker_log invalid_start ''web'' (Reads [[0xFF, 0x0A]])) =
     Some (ValueError (''The sub-process failed to run. '' @ invalid_start [0xFF, 0x0A] @
                       '', Originating error on line 61 in <__main__>'')) \<and>
   fst (snd (get_docker_log invalid_start ''web'' (Reads [[0xFF, 0x0A]]))) = []"
proof -
  have d: "decode_utf8 [0xFF, 0x0A] = None"
    by (simp add: decode_utf8.simps utf8_step_def)
  show ?thesis
    by (simp add: d get_docker_log_def forward_line_def Let_def this_module_def)
qed

text \<open>
  Claim C4, as amended. The source decodes with \<open>decode('utf-8')\<close> and no \<open>errors\<close>
  argument, so decoding is strict. A line that is the UTF-8 encoding of Unicode scalar
  values is decoded to just those and forwarded, stripped, to the container logger. A
  line that is not valid UTF-8, that is, a line that is the encoding of no sequence of
  scalar values, raises in the decode step: nothing is forwarded for it, the lines
  after it are not read, and \<open>get_docker_log\<close> ends with the \<open>ValueError\<close> of its
  handler. The counterexample is the line \<open>FF 0A\<close>.
\<close>

theorem strict_decode_step:
  "((\<forall>c \<in> set s. scalar_value c) \<longrightarrow>
      forward_line reason (encode_utf8 s) container_log = Inr (container_log @ [py_strip s])) \<and>
   (\<not> (\<exists>u. (\<forall>c \<in> set u. scalar_value c) \<and> encode_utf8 u = line) \<longrightarrow>
      decode_utf8 line = None \<and>
      forward_line reason line container_log = Inl (UnicodeDecodeError (reason line)) \<and>
      read_lines reason (line # later) container_log =
        (Some (UnicodeDecodeError (reason line)), container_log) \<and>
      fst (get_docker_log reason container_name (Reads (line # later))) =
        Some (ValueError (''The sub-process failed to run. '' @ reason line @
                          '', Originating error on line 61 in <'' @ this_module @ ''>'')) \<and>
      fst (snd (get_docker_log reason container_name (Reads (line # later)))) = [])"
proof (intro conjI impI)
  assume "\<forall>c \<in> set s. scalar_value c"
  then show "forward_line reason (encode_utf8 s) container_log = Inr (container_log @ [py_strip s])"
    by (simp add: forward_line_def decode_encode)
next
  assume "\<not> (\<exists>u. (\<forall>c \<in> set u. scalar_value c) \<and> encode_utf8 u = line)"
  then show d: "decode_utf8 line = None"
    by (rule invalid_utf8_raises)
  show "forward_line reason line container_log = Inl (UnicodeDecodeError (reason line))"
    by (simp add: forward_line_def d)
  show "read_lines reason (line # later) container_log =
        (Some (UnicodeDecodeError (reason line)), container_log)"
    using d by (rule read_lines_raises)
  show "fst (get_docker_log reason container_name (Reads (line # later))) =
        Some (ValueError (''The sub-process failed to run. '' @ reason line @
                          '', Originating error on line 61 in <'' @ this_module @ ''>''))"
    by (simp add: get_docker_log_def Let_def read_lines_raises [OF d] del: read_lines.simps)
  show "fst (snd (get_docker_log reason container_name (Reads (line # later)))) = []"
    by (simp add: get_docker_log_def Let_def read_lines_raises [OF d] del: read_lines.simps)
qed

text \<open>
  The line \<open>68 C3 A9 E2 82 AC 0A\<close> encodes four scalar values and is forwarded without
  its line feed. The line \<open>C3 28\<close> encodes nothing, a lead byte followed by a byte that
  is no continuation: the reader raises on it and the line after it is never read.
\<close>

theorem strict_decode_step_witness:
  "scalar_value 0x68 \<and> scalar_value 0xE9 \<and> scalar_value 0x20AC \<and>
   encode_utf8 [0x68, 0xE9, 0x20AC, 0x0A] = [0x68, 0xC3, 0xA9, 0xE2, 0x82, 0xAC, 0x0A] \<and>
   forward_line invalid_start [0x68, 0xC3, 0xA9, 0xE2, 0x82, 0xAC, 0x0A] [] =
     Inr [[0x68, 0xE9, 0x20AC]] \<and>
   \<not> (\<exists>u. (\<forall>c \<in> set u. scalar_value c) \<and> encode_utf8 u = [0xC3, 0x28]) \<and>
   decode_utf8 [0xC3, 0x28] = None \<and>
   forward_line invalid_start [0xC3, 0x28] [] = Inl (UnicodeDecodeError (invalid_start [0xC3, 0x28])) \<and>
   read_lines invalid_start [[0xC3, 0x28], [0x68]] [] =
     (Some (UnicodeDecodeError (invalid_start [0xC3, 0x28])), []) \<and>
   fst (get_docker_log invalid_start ''web'' (Reads [[0xC3, 0x28], [0x68]])) =
     Some (ValueError (''The sub-process failed to run. '' @ invalid_start [0xC3, 0x28] @
                       '', Originating error on line 61 in <__main__>'')) \<and>
   fst (snd (get_docker_log invalid_start ''web'' (Reads [[0xC3, 0x28], [0x68]]))) = []"
proof -
  have sc: "scalar_value 0x68" "scalar_value 0xE9" "scalar_value 0x20AC" "scalar_value 0x0A"
    by (simp_all add: scalar_value_def)
  then have all: "\<forall>c \<in> set [0x68, 0xE9, 0x20AC, 0x0A]. scalar_value c"
    by simp
  have enc: "encode_utf8 [0x68, 0xE9, 0x20AC, 0x0A] = [0x68, 0xC3, 0xA9, 0xE2, 0x82, 0xAC, 0x0A]"
    by (simp add: encode_utf8_def encode_char_def)
  have st: "py_strip [0x68, 0xE9, 0x20AC, 0x0A] = [0x68, 0xE9, 0x20AC]"
    by (simp add: py_strip_def py_isspace_def)
  have bad: "decode_utf8 [0xC3, 0x28] = None"
    by (simp add: decode_utf8.simps utf8_step_def continuation_def)
  have nv: "\<not> (\<exists>u. (\<forall>c \<in> set u. scalar_value c) \<and> encode_utf8 u = [0xC3, 0x28])"
  proof
    assume "\<exists>u. (\<forall>c \<in> set u. scalar_value c) \<and> encode_utf8 u = [0xC3, 0x28]"
    then obtain u where u: "\<forall>c \<in> set u. scalar_value c" "encode_utf8 u = [0xC3, 0x28]"
      by blast
    from decode_encode [OF u(1)] have "decode_utf8 [0xC3, 0x28] = Some u"
      unfolding u(2) .
    with bad show False by simp
  qed
  note inst = strict_decode_step
    [where s = "[0x68, 0xE9, 0x20AC, 0x0A]" and reason = invalid_start and container_log = "[]" and
      line = "[0xC3, 0x28]" and later = "[[0x68]]" and container_name = "''web''"]
  have f: "forward_line invalid_start [0x68, 0xC3, 0xA9, 0xE2, 0x82, 0xAC, 0x0A] [] =
     Inr [[0x68, 0xE9, 0x20AC]]"
    using inst all unfolding enc st by simp
  from inst nv have r:
    "decode_utf8 [0xC3, 0x28] = None \<and>
     forward_line invalid_start [0xC3, 0x28] [] =
       Inl (UnicodeDecodeError (invalid_start [0xC3, 0x28])) \<and>
     read_lines invalid_start [[0xC3, 0x28], [0x68]] [] =
       (Some (UnicodeDecodeError (invalid_start [0xC3, 0x28])), []) \<and>
     fst (get_docker_log invalid_start ''web'' (Reads [[0xC3, 0x28], [0x68]])) =
       Some (ValueError (''The sub-process failed to run. '' @ invalid_start [0xC3, 0x28] @
                         '', Originating error on line 61 in <'' @ this_module @ ''>'')) \<and>
     fst (snd (get_docker_log invalid_start ''web'' (Reads [[0xC3, 0x28], [0x68]]))) = []"
    by blast
  from r have g: "forward_line invalid_start [0xC3, 0x28] [] =
      Inl (UnicodeDecodeError (invalid_start [0xC3, 0x28]))"
    and rl: "read_lines invalid_start [[0xC3, 0x28], [0x68]] [] =
      (Some (UnicodeDecodeError (invalid_start [0xC3, 0x28])), [])"
    and h: "fst (snd (get_docker_log invalid_start ''web'' (Reads [[0xC3, 0x28], [0x68]]))) = []"
    by blast+
  from r have e: "fst (get_docker_log invalid_start ''web'' (Reads [[0xC3, 0x28], [0x68]])) =
     Some (ValueError (''The sub-process failed to run. '' @ invalid_start [0xC3, 0x28] @
                       '', Originating error on line 61 in <__main__>''))"
    by (simp add: this_module_def)
  from sc(1-3) enc f nv bad g rl e h show ?thesis by (intro conjI)
qed

subsection \<open>Errors that end the process\<close>

text \<open>
  The configuration file cannot be read: \<open>main\<close> ends with the error raised by
  \<open>populate_startup_variables\<close>, and nothing has been logged, printed or mailed.
\<close>

theorem silent_startup_failure_counterexample:
  "populate_startup_variables (read_yaml_config env_unreadable) (load_settings env_unreadable) =
     Inl (ValueError
       (no_such_file @ '', Error on line414 in <__main__>'')) \<and>
   fst (main env_unreadable fresh_process) =
     Raises (ValueError
       (no_such_file @ '', Error on line414 in <__main__>'')) \<and>
   root_log (world_of (snd (main env_unreadable fresh_process))) = [] \<and>
   stdout (snd (main env_unreadable fresh_process)) = [] \<and>
   outbox (snd (main env_unreadable fresh_process)) = []"
proof -
  have p: "populate_startup_variables (read_yaml_config env_unreadable)
      (load_settings env_unreadable) =
     Inl (ValueError
       (no_such_file @ '', Error on line414 in <__main__>''))"
    by (simp add: populate_startup_variables_def env_unreadable_def and_then_def this_module_def
        no_such_file_def)
  have m: "main env_unreadable fresh_process =
     (Raises (ValueError
       (no_such_file @ '', Error on line414 in <__main__>'')),
      fresh_process)"
    unfolding main_def p by simp
  have f: "root_log (world_of fresh_process) = []" "stdout fresh_process = []"
    "outbox fresh_process = []"
    by (simp_all add: fresh_process_def fresh_world_def)
  show ?thesis
    unfolding m using p f by simp
qed

text \<open>
  Claim C5, as amended. \<open>populate_startup_variables\<close> is called before the \<open>try\<close>
  of \<open>main\<close>, when no logger and no mail settings exist yet: an error of the
  configuration loading leaves \<open>main\<close> uncaught, with nothing printed, logged or
  mailed. A \<open>ValueError\<close> (or an error of its subclass \<open>UnicodeDecodeError\<close>) raised
  inside the \<open>try\<close>, by the pass or by a notification mail, reaches the handler. The
  three lines are printed and the error is logged at error level. With both
  \<open>alert_program_errors\<close> and \<open>email_alerts\<close> set, "Sending email notification" is
  logged, one alert mail is attempted, and the error of a failed attempt is logged; with
  \<open>alert_program_errors\<close> unset a debug line is logged, otherwise an error line, and
  no mail is attempted. The exit line is logged last and the process exits. The root log,
  the printed lines and the mails are given in full.
\<close>

theorem error_handling_in_main:
  "(populate_startup_variables (read_yaml_config env) (load_settings env) = Inl err \<longrightarrow>
      main env p = (Raises err, p)) \<and>
   (populate_startup_variables (read_yaml_config env) (load_settings env) = Inr sv \<and>
    create_docker_log_threads (starter env) (docker_container_loggers sv) (world_of (banner p)) =
      (Inl err, w) \<and>
    is_value_error err \<longrightarrow>
      fst (main env p) = Exits \<and>
      stdout (snd (main env p)) =
        stdout p @
        [now env 0 @ ''|Error|'' @ str_exn err @ '', Error on line 440 in <'' @ this_module @ ''>'',
         now env 1 @ ''|Error|'' @ str_exn err,
         now env 2 @
           ''|Info|See log for more details. You may need to enable debugging for more information.''] \<and>
      root_log (world_of (snd (main env p))) =
        root_log w @ [(ERROR, str_exn err)] @
        (if alert_program_errors sv \<and> email_alerts sv then
           (ERROR, ''Sending email notification'') #
           (case send_email env (email_settings sv) ''Docker Log Redirect Program Issue Occured''
                   (now env 3 @ ''|Error|Exception Thrown|'' @ str_exn err) of
              None \<Rightarrow> []
            | Some mail_err \<Rightarrow> [(ERROR, str_exn mail_err)])
         else if \<not> alert_program_errors sv then
           [(DEBUG, ''The user chooses not to send program errors to email'')]
         else
           [(ERROR,
             ''The user did not choose an option on sending program errors to email. Continuing to exit'')]) @
        [(ERROR, ''Exiting because of the exception error....'')] \<and>
      outbox (snd (main env p)) =
        outbox p @
        (if alert_program_errors sv \<and> email_alerts sv
         then [(''Docker Log Redirect Program Issue Occured'',
                now env 3 @ ''|Error|Exception Thrown|'' @ str_exn err)]
         else [])) \<and>
   (populate_startup_variables (read_yaml_config env) (load_settings env) = Inr sv \<and>
    create_docker_log_threads (starter env) (docker_container_loggers sv) (world_of (banner p)) =
      (Inr thread_status, w) \<and>
    notify_all env sv (length thread_status) thread_status ((banner p)\<lparr>world_of := w\<rparr>) =
      (Some err, p2) \<and>
    is_value_error err \<longrightarrow>
      fst (main env p) = Exits \<and>
      stdout (snd (main env p)) =
        stdout p2 @
        [now env 0 @ ''|Error|'' @ str_exn err @ '', Error on line 463 in <'' @ this_module @ ''>'',
         now env 1 @ ''|Error|'' @ str_exn err,
         now env 2 @
           ''|Info|See log for more details. You may need to enable debugging for more information.''] \<and>
      root_log (world_of (snd (main env p))) =
        root_log (world_of p2) @ [(ERROR, str_exn err)] @
        (if alert_program_errors sv \<and> email_alerts sv then
           (ERROR, ''Sending email notification'') #
           (case send_email env (email_settings sv) ''Docker Log Redirect Program Issue Occured''
                   (now env 3 @ ''|Error|Exception Thrown|'' @ str_exn err) of
              None \<Rightarrow> []
            | Some mail_err \<Rightarrow> [(ERROR, str_exn mail_err)])
         else if \<not> alert_program_errors sv then
           [(DEBUG, ''The user chooses not to send program errors to email'')]
         else
           [(ERROR,
             ''The user did not choose an option on sending program errors to email. Continuing to exit'')]) @
        [(ERROR, ''Exiting because of the exception error....'')] \<and>
      outbox (snd (main env p)) =
        outbox p2 @
        (if alert_program_errors sv \<and> email_alerts sv
         then [(''Docker Log Redirect Program Issue Occured'',
                now env 3 @ ''|Error|Exception Thrown|'' @ str_exn err)]
         else [])) \<and>
   (is_value_error err \<longleftrightarrow> (\<exists>m. err = ValueError m \<or> err = UnicodeDecodeError m))"
proof (intro conjI impI)
  assume "populate_startup_variables (read_yaml_config env) (load_settings env) = Inl err"
  then show "main env p = (Raises err, p)"
    by (simp add: main_def)
next
  assume a: "populate_startup_variables (read_yaml_config env) (load_settings env) = Inr sv \<and>
    create_docker_log_threads (starter env) (docker_container_loggers sv) (world_of (banner p)) =
      (Inl err, w) \<and>
    is_value_error err"
  then have a1: "populate_startup_variables (read_yaml_config env) (load_settings env) = Inr sv"
    and a2: "create_docker_log_threads (starter env) (docker_container_loggers sv)
               (world_of (banner p)) = (Inl err, w)"
    and a3: "is_value_error err"
    by blast+
  note eq = main_pass_raises [OF a1 a2 a3]
  show "fst (main env p) = Exits"
    unfolding eq by (rule exit_on_error_ending)
  show "stdout (snd (main env p)) =
        stdout p @
        [now env 0 @ ''|Error|'' @ str_exn err @ '', Error on line 440 in <'' @ this_module @ ''>'',
         now env 1 @ ''|Error|'' @ str_exn err,
         now env 2 @
           ''|Info|See log for more details. You may need to enable debugging for more information.'']"
    unfolding eq exit_on_error_stdout by (simp add: banner_def)
  have base: "root_log (world_of ((banner p)\<lparr>world_of := w\<rparr>)) = root_log w"
    by simp
  show "root_log (world_of (snd (main env p))) =
        root_log w @ [(ERROR, str_exn err)] @
        (if alert_program_errors sv \<and> email_alerts sv then
           (ERROR, ''Sending email notification'') #
           (case send_email env (email_settings sv) ''Docker Log Redirect Program Issue Occured''
                   (now env 3 @ ''|Error|Exception Thrown|'' @ str_exn err) of
              None \<Rightarrow> []
            | Some mail_err \<Rightarrow> [(ERROR, str_exn mail_err)])
         else if \<not> alert_program_errors sv then
           [(DEBUG, ''The user chooses not to send program errors to email'')]
         else
           [(ERROR,
             ''The user did not choose an option on sending program errors to email. Continuing to exit'')]) @
        [(ERROR, ''Exiting because of the exception error....'')]"
    unfolding eq exit_on_error_log base ..
  show "outbox (snd (main env p)) =
        outbox p @
        (if alert_program_errors sv \<and> email_alerts sv
         then [(''Docker Log Redirect Program Issue Occured'',
                now env 3 @ ''|Error|Exception Thrown|'' @ str_exn err)]
         else [])"
    unfolding eq exit_on_error_outbox by (simp add: banner_def)
next
  assume a: "populate_startup_variables (read_yaml_config env) (load_settings env) = Inr sv \<and>
    create_docker_log_threads (starter env) (docker_container_loggers sv) (world_of (banner p)) =
      (Inr thread_status, w) \<and>
    notify_all env sv (length thread_status) thread_status ((banner p)\<lparr>world_of := w\<rparr>) =
      (Some err, p2) \<and>
    is_value_error err"
  then have a1: "populate_startup_variables (read_yaml_config env) (load_settings env) = Inr sv"
    and a2: "create_docker_log_threads (starter env) (docker_container_loggers sv)
               (world_of (banner p)) = (Inr thread_status, w)"
    and a3: "notify_all env sv (length thread_status) thread_status
               ((banner p)\<lparr>world_of := w\<rparr>) = (Some err, p2)"
    and a4: "is_value_error err"
    by blast+
  note eq = main_notify_raises [OF a1 a2 a3 a4]
  show "fst (main env p) = Exits"
    unfolding eq by (rule exit_on_error_ending)
  show "stdout (snd (main env p)) =
        stdout p2 @
        [now env 0 @ ''|Error|'' @ str_exn err @ '', Error on line 463 in <'' @ this_module @ ''>'',
         now env 1 @ ''|Error|'' @ str_exn err,
         now env 2 @
           ''|Info|See log for more details. You may need to enable debugging for more information.'']"
    unfolding eq exit_on_error_stdout by simp
  show "root_log (world_of (snd (main env p))) =
        root_log (world_of p2) @ [(ERROR, str_exn err)] @
        (if alert_program_errors sv \<and> email_alerts sv then
           (ERROR, ''Sending email notification'') #
           (case send_email env (email_settings sv) ''Docker Log Redirect Program Issue Occured''
                   (now env 3 @ ''|Error|Exception Thrown|'' @ str_exn err) of
              None \<Rightarrow> []
            | Some mail_err \<Rightarrow> [(ERROR, str_exn mail_err)])
         else if \<not> alert_program_errors sv then
           [(DEBUG, ''The user chooses not to send program errors to email'')]
         else
           [(ERROR,
             ''The user did not choose an option on sending program errors to email. Continuing to exit'')]) @
        [(ERROR, ''Exiting because of the exception error....'')]"
    unfolding eq exit_on_error_log ..
  show "outbox (snd (main env p)) =
        outbox p2 @
        (if alert_program_errors sv \<and> email_alerts sv
         then [(''Docker Log Redirect Program Issue Occured'',
                now env 3 @ ''|Error|Exception Thrown|'' @ str_exn err)]
         else [])"
    unfolding eq exit_on_error_outbox ..
next
  show "is_value_error err \<longleftrightarrow> (\<exists>m. err = ValueError m \<or> err = UnicodeDecodeError m)"
    by (rule is_value_error_iff)
qed

theorem error_handling_in_main_witness:
  "main env_unreadable fresh_process =
     (Raises (ValueError (no_such_file @ '', Error on line414 in <__main__>'')), fresh_process) \<and>
   populate_startup_variables (read_yaml_config env_failing_start)
     (load_settings env_failing_start) = Inr loaded_settings \<and>
   fst (create_docker_log_threads (starter env_failing_start) two_containers
          (world_of (banner fresh_process))) =
     Inl (ValueError ''can't start new thread, Error on line 113 in <__main__>'') \<and>
   is_value_error (ValueError ''can't start new thread, Error on line 113 in <__main__>'') \<and>
   fst (main env_failing_start fresh_process) = Exits \<and>
   stdout (snd (main env_failing_start fresh_process)) =
     [''2021-06-01 12:00:00|Error|can't start new thread, Error on line 113 in <__main__>, Error on line 440 in <__main__>'',
      ''2021-06-01 12:00:00|Error|can't start new thread, Error on line 113 in <__main__>'',
      ''2021-06-01 12:00:00|Info|See log for more details. You may need to enable debugging for more information.''] \<and>
   outbox (snd (main env_failing_start fresh_process)) =
     [(''Docker Log Redirect Program Issue Occured'',
       ''2021-06-01 12:00:00|Error|Exception Thrown|can't start new thread, Error on line 113 in <__main__>'')] \<and>
   fst (main env_mail_down fresh_process) = Exits \<and>
   outbox (snd (main env_mail_down fresh_process)) =
     [(''Docker Log Redirect Event for web. Status = Started'',
       ''A docker redirect event has occured. Status of the docker log redirect = Started''),
      (''Docker Log Redirect Program Issue Occured'',
       ''2021-06-01 12:00:00|Error|Exception Thrown|Connection refused'')] \<and>
   root_log (world_of (snd (main env_mail_down fresh_process))) =
     root_log (world_of (snd (notify_all env_mail_down loaded_settings 2
        [status_entry ''Started'' ''web'', status_entry ''Started'' ''db'']
        ((banner fresh_process)\<lparr>world_of :=
           snd (create_docker_log_threads start_ok two_containers
                  (world_of (banner fresh_process)))\<rparr>)))) @
     [(ERROR, ''Connection refused''), (ERROR, ''Sending email notification''),
      (ERROR, ''Connection refused''), (ERROR, ''Exiting because of the exception error....'')] \<and>
   is_value_error (UnicodeDecodeError ''invalid start byte'') \<and>
   fst (main env_mail_garbled fresh_process) = Exits"
proof -
  have p0: "populate_startup_variables (read_yaml_config env_unreadable)
      (load_settings env_unreadable) =
     Inl (ValueError (no_such_file @ '', Error on line414 in <__main__>''))"
    by (simp add: populate_startup_variables_def env_unreadable_def and_then_def this_module_def
        no_such_file_def)
  have w0: "main env_unreadable fresh_process =
     (Raises (ValueError (no_such_file @ '', Error on line414 in <__main__>'')), fresh_process)"
    using error_handling_in_main [where env = env_unreadable and p = fresh_process] p0
    by blast
  have dl: "docker_container_loggers loaded_settings = two_containers"
    by (simp add: loaded_settings_def)
  have fl: "alert_program_errors loaded_settings \<and> email_alerts loaded_settings"
    by (simp add: loaded_settings_def)
  have es: "email_settings loaded_settings = [(''smtp'', YStr ''smtp.example.org'')]"
    by (simp add: loaded_settings_def)
  have ob: "outbox fresh_process = []" and so: "stdout fresh_process = []"
    by (simp_all add: fresh_process_def)
  have two: "length [status_entry ''Started'' ''web'', status_entry ''Started'' ''db''] = 2"
    by simp
  have r2: "fst (create_docker_log_threads (start_ok :: unit starter) two_containers
          (world_of (banner fresh_process))) =
     Inr [status_entry ''Started'' ''web'', status_entry ''Started'' ''db'']"
    by code_simp
  define w2 where "w2 = snd (create_docker_log_threads (start_ok :: unit starter) two_containers
          (world_of (banner fresh_process)))"
  have started: "create_docker_log_threads (start_ok :: unit starter) two_containers
      (world_of (banner fresh_process)) =
      (Inr [status_entry ''Started'' ''web'', status_entry ''Started'' ''db''], w2)"
    unfolding w2_def using r2 by (simp add: prod_eq_iff)

  have p1: "populate_startup_variables (read_yaml_config env_failing_start)
     (load_settings env_failing_start) = Inr loaded_settings"
    by (simp add: env_failing_start_def populate_complete)
  define w1 where "w1 = snd (create_docker_log_threads (starter env_failing_start) two_containers
          (world_of (banner fresh_process)))"
  have st1: "starter env_failing_start = start_raises_for ''web''"
    by (simp add: env_failing_start_def)
  have r1: "fst (create_docker_log_threads (start_raises_for ''web'') two_containers
          (world_of (banner fresh_process))) =
     Inl (ValueError ''can't start new thread, Error on line 113 in <__main__>'')"
    by code_simp
  have r1': "fst (create_docker_log_threads (starter env_failing_start) two_containers
          (world_of (banner fresh_process))) =
     Inl (ValueError ''can't start new thread, Error on line 113 in <__main__>'')"
    unfolding st1 by (rule r1)
  have pass1: "create_docker_log_threads (starter env_failing_start)
      (docker_container_loggers loaded_settings) (world_of (banner fresh_process)) =
      (Inl (ValueError ''can't start new thread, Error on line 113 in <__main__>''), w1)"
    unfolding dl w1_def using r1' by (simp add: prod_eq_iff)
  have v1: "is_value_error (ValueError ''can't start new thread, Error on line 113 in <__main__>'')"
    by (simp add: is_value_error_def)
  have n1: "now env_failing_start = (\<lambda>k. ''2021-06-01 12:00:00'')"
    by (simp add: env_failing_start_def)
  note i1 = error_handling_in_main
    [where env = env_failing_start and p = fresh_process and sv = loaded_settings and
      err = "ValueError ''can't start new thread, Error on line 113 in <__main__>''" and w = w1]
  from i1 p1 pass1 v1
  have e1: "fst (main env_failing_start fresh_process) = Exits"
    by blast
  from i1 p1 pass1 v1
  have "stdout (snd (main env_failing_start fresh_process)) =
        stdout fresh_process @
        [now env_failing_start 0 @ ''|Error|'' @
           str_exn (ValueError ''can't start new thread, Error on line 113 in <__main__>'') @
           '', Error on line 440 in <'' @ this_module @ ''>'',
         now env_failing_start 1 @ ''|Error|'' @
           str_exn (ValueError ''can't start new thread, Error on line 113 in <__main__>''),
         now env_failing_start 2 @
           ''|Info|See log for more details. You may need to enable debugging for more information.'']"
    by blast
  then have s1: "stdout (snd (main env_failing_start fresh_process)) =
     [''2021-06-01 12:00:00|Error|can't start new thread, Error on line 113 in <__main__>, Error on line 440 in <__main__>'',
      ''2021-06-01 12:00:00|Error|can't start new thread, Error on line 113 in <__main__>'',
      ''2021-06-01 12:00:00|Info|See log for more details. You may need to enable debugging for more information.'']"
    unfolding n1 so by (simp add: this_module_def)
  from i1 p1 pass1 v1
  have "outbox (snd (main env_failing_start fresh_process)) =
        outbox fresh_process @
        (if alert_program_errors loaded_settings \<and> email_alerts loaded_settings
         then [(''Docker Log Redirect Program Issue Occured'',
                now env_failing_start 3 @ ''|Error|Exception Thrown|'' @
                str_exn (ValueError ''can't start new thread, Error on line 113 in <__main__>''))]
         else [])"
    by blast
  then have o1: "outbox (snd (main env_failing_start fresh_process)) =
     [(''Docker Log Redirect Program Issue Occured'',
       ''2021-06-01 12:00:00|Error|Exception Thrown|can't start new thread, Error on line 113 in <__main__>'')]"
    unfolding n1 ob using fl by simp

  have p2: "populate_startup_variables (read_yaml_config env_mail_down)
     (load_settings env_mail_down) = Inr loaded_settings"
    by (simp add: env_mail_down_def populate_complete)
  have st2: "starter env_mail_down = start_ok"
    by (simp add: env_mail_down_def)
  have pass2: "create_docker_log_threads (starter env_mail_down)
      (docker_container_loggers loaded_settings) (world_of (banner fresh_process)) =
      (Inr [status_entry ''Started'' ''web'', status_entry ''Started'' ''db''], w2)"
    unfolding dl st2 by (rule started)
  define q where "q = snd (notify_all env_mail_down loaded_settings 2
      [status_entry ''Started'' ''web'', status_entry ''Started'' ''db'']
      ((banner fresh_process)\<lparr>world_of := w2\<rparr>))"
  have se: "send_email env_mail_down = (\<lambda>settings subject body. Some (ValueError ''Connection refused''))"
    by (simp add: env_mail_down_def)
  have nf: "fst (notify_all env_mail_down loaded_settings 2
      [status_entry ''Started'' ''web'', status_entry ''Started'' ''db'']
      ((banner fresh_process)\<lparr>world_of := w2\<rparr>)) = Some (ValueError ''Connection refused'')"
    by (simp add: status_entry_def fl se Let_def)
  have mail2: "notify_all env_mail_down loaded_settings
      (length [status_entry ''Started'' ''web'', status_entry ''Started'' ''db''])
      [status_entry ''Started'' ''web'', status_entry ''Started'' ''db'']
      ((banner fresh_process)\<lparr>world_of := w2\<rparr>) = (Some (ValueError ''Connection refused''), q)"
    unfolding q_def two using nf by (simp add: prod_eq_iff)
  have oq: "outbox q =
     [(''Docker Log Redirect Event for web. Status = Started'',
       ''A docker redirect event has occured. Status of the docker log redirect = Started'')]"
    unfolding q_def
    by (simp add: status_entry_def fl se Let_def dict_get_def banner_def ob)
  have v2: "is_value_error (ValueError ''Connection refused'')"
    by (simp add: is_value_error_def)
  have n2: "now env_mail_down = (\<lambda>k. ''2021-06-01 12:00:00'')"
    by (simp add: env_mail_down_def)
  note i2 = error_handling_in_main
    [where env = env_mail_down and p = fresh_process and sv = loaded_settings and
      err = "ValueError ''Connection refused''" and w = w2 and ?p2.0 = q and
      thread_status = "[status_entry ''Started'' ''web'', status_entry ''Started'' ''db'']"]
  from i2 p2 pass2 mail2 v2
  have e2: "fst (main env_mail_down fresh_process) = Exits"
    by blast
  from i2 p2 pass2 mail2 v2
  have "outbox (snd (main env_mail_down fresh_process)) =
        outbox q @
        (if alert_program_errors loaded_settings \<and> email_alerts loaded_settings
         then [(''Docker Log Redirect Program Issue Occured'',
                now env_mail_down 3 @ ''|Error|Exception Thrown|'' @
                str_exn (ValueError ''Connection refused''))]
         else [])"
    by blast
  then have o2: "outbox (snd (main env_mail_down fresh_process)) =
     [(''Docker Log Redirect Event for web. Status = Started'',
       ''A docker redirect event has occured. Status of the docker log redirect = Started''),
      (''Docker Log Redirect Program Issue Occured'',
       ''2021-06-01 12:00:00|Error|Exception Thrown|Connection refused'')]"
    unfolding n2 oq using fl by simp
  from i2 p2 pass2 mail2 v2
  have "root_log (world_of (snd (main env_mail_down fresh_process))) =
        root_log (world_of q) @ [(ERROR, str_exn (ValueError ''Connection refused''))] @
        (if alert_program_errors loaded_settings \<and> email_alerts loaded_settings then
           (ERROR, ''Sending email notification'') #
           (case send_email env_mail_down (email_settings loaded_settings)
                   ''Docker Log Redirect Program Issue Occured''
                   (now env_mail_down 3 @ ''|Error|Exception Thrown|'' @
                    str_exn (ValueError ''Connection refused'')) of
              None \<Rightarrow> []
            | Some mail_err \<Rightarrow> [(ERROR, str_exn mail_err)])
         else if \<not> alert_program_errors loaded_settings then
           [(DEBUG, ''The user chooses not to send program errors to email'')]
         else
           [(ERROR,
             ''The user did not choose an option on sending program errors to email. Continuing to exit'')]) @
        [(ERROR, ''Exiting because of the exception error....'')]"
    by blast
  then have l2: "root_log (world_of (snd (main env_mail_down fresh_process))) =
     root_log (world_of q) @
     [(ERROR, ''Connection refused''), (ERROR, ''Sending email notification''),
      (ERROR, ''Connection refused''), (ERROR, ''Exiting because of the exception error....'')]"
    unfolding se using fl by simp

  have p3: "populate_startup_variables (read_yaml_config env_mail_garbled)
     (load_settings env_mail_garbled) = Inr loaded_settings"
    by (simp add: env_mail_garbled_def populate_complete)
  have st3: "starter env_mail_garbled = start_ok"
    by (simp add: env_mail_garbled_def)
  have pass3: "create_docker_log_threads (starter env_mail_garbled)
      (docker_container_loggers loaded_settings) (world_of (banner fresh_process)) =
      (Inr [status_entry ''Started'' ''web'', status_entry ''Started'' ''db''], w2)"
    unfolding dl st3 by (rule started)
  define q3 where "q3 = snd (notify_all env_mail_garbled loaded_settings 2
      [status_entry ''Started'' ''web'', status_entry ''Started'' ''db'']
      ((banner fresh_process)\<lparr>world_of := w2\<rparr>))"
  have se3: "send_email env_mail_garbled =
      (\<lambda>settings subject body. Some (UnicodeDecodeError ''invalid start byte''))"
    by (simp add: env_mail_garbled_def)
  have nf3: "fst (notify_all env_mail_garbled loaded_settings 2
      [status_entry ''Started'' ''web'', status_entry ''Started'' ''db'']
      ((banner fresh_process)\<lparr>world_of := w2\<rparr>)) =
      Some (UnicodeDecodeError ''invalid start byte'')"
    by (simp add: status_entry_def fl se3 Let_def)
  have mail3: "notify_all env_mail_garbled loaded_settings
      (length [status_entry ''Started'' ''web'', status_entry ''Started'' ''db''])
      [status_entry ''Started'' ''web'', status_entry ''Started'' ''db'']
      ((banner fresh_process)\<lparr>world_of := w2\<rparr>) =
      (Some (UnicodeDecodeError ''invalid start byte''), q3)"
    unfolding q3_def two using nf3 by (simp add: prod_eq_iff)
  have v3: "is_value_error (UnicodeDecodeError ''invalid start byte'')"
    by (simp add: is_value_error_def)
  from error_handling_in_main
    [where env = env_mail_garbled and p = fresh_process and sv = loaded_settings and
      err = "UnicodeDecodeError ''invalid start byte''" and w = w2 and ?p2.0 = q3 and
      thread_status = "[status_entry ''Started'' ''web'', status_entry ''Started'' ''db'']"]
    p3 pass3 mail3 v3
  have e3: "fst (main env_mail_garbled fresh_process) = Exits"
    by blast
  from w0 p1 r1' v1 e1 s1 o1 e2 o2 l2 [unfolded q_def w2_def] v3 e3
  show ?thesis by (intro conjI)
qed

subsection \<open>A required section is missing\<close>

text \<open>
  Claim C6. When the configuration is a mapping that lacks one of the root keys
  \<open>general\<close>, \<open>docker_container\<close>, \<open>email\<close>, \<open>logging\<close> (or when the file is empty
  and there is no mapping at all), \<open>populate_startup_variables\<close> raises a
  \<open>ValueError\<close>, \<open>main\<close> ends with that error before it has done anything else, and
  the process is as it was: no thread has been started, whatever the thread starter
  would do.
\<close>

theorem missing_section_is_fatal:
  "read_yaml_config env = Inr config \<and>
   ((\<exists>items. config = YDict items \<and>
       \<not> {''general'', ''docker_container'', ''email'', ''logging''} \<subseteq> set (map fst items)) \<or>
    config = YNone) \<longrightarrow>
     (\<exists>m. populate_startup_variables (read_yaml_config env) (load_settings env) = Inl (ValueError m) \<and>
          main env p = (Raises (ValueError m), p))"
proof
  assume a: "read_yaml_config env = Inr config \<and>
   ((\<exists>items. config = YDict items \<and>
       \<not> {''general'', ''docker_container'', ''email'', ''logging''} \<subseteq> set (map fst items)) \<or>
    config = YNone)"
  then have r: "read_yaml_config env = Inr config" ..
  have "\<exists>m. populate_startup_variables (Inr config) (load_settings env) = Inl (ValueError m)"
  proof -
    from a consider items where "config = YDict items"
        "\<not> {''general'', ''docker_container'', ''email'', ''logging''} \<subseteq> set (map fst items)"
      | "config = YNone"
      by blast
    then show ?thesis
    proof cases
      case 1
      from populate_missing_key [OF 1(2), of "load_settings env"] 1(1) show ?thesis by simp
    next
      case 2
      then show ?thesis by (intro populate_not_a_mapping) simp
    qed
  qed
  then obtain m where
    m: "populate_startup_variables (Inr config) (load_settings env) = Inl (ValueError m)" ..
  have "main env p = (Raises (ValueError m), p)"
    unfolding main_def r m by simp
  with m r show "\<exists>m. populate_startup_variables (read_yaml_config env) (load_settings env) =
      Inl (ValueError m) \<and> main env p = (Raises (ValueError m), p)"
    by auto
qed

theorem missing_section_is_fatal_witness:
  "read_yaml_config env_without_email = Inr config_without_email \<and>
   map fst (case config_without_email of YDict items \<Rightarrow> items) =
     [''general'', ''docker_container'', ''logging''] \<and>
   main env_without_email fresh_process =
     (Raises (ValueError (''The '' @ [CHR 0x27] @ ''email'' @ [CHR 0x27] @
        '' key is missing from the YAML file, Originating error on line 249 in <__main__>, Error on line414 in <__main__>'')),
      fresh_process)"
proof -
  have r: "read_yaml_config env_without_email = Inr config_without_email"
    by (simp add: env_without_email_def)
  have l: "load_settings env_without_email = settings_loaded"
    by (simp add: env_without_email_def)
  have k: "map fst (case config_without_email of YDict items \<Rightarrow> items) =
     [''general'', ''docker_container'', ''logging'']"
    by (simp add: config_without_email_def)
  have c: "config_without_email = YDict (case config_without_email of YDict items \<Rightarrow> items)"
    by (simp add: config_without_email_def)
  have miss: "\<not> {''general'', ''docker_container'', ''email'', ''logging''} \<subseteq>
      set (map fst (case config_without_email of YDict items \<Rightarrow> items))"
    unfolding k by simp
  from c miss have h: "(\<exists>items. config_without_email = YDict items \<and>
       \<not> {''general'', ''docker_container'', ''email'', ''logging''} \<subseteq> set (map fst items)) \<or>
    config_without_email = YNone"
    by blast
  from missing_section_is_fatal
    [where env = env_without_email and p = fresh_process and config = config_without_email]
    r h
  obtain m where
    "populate_startup_variables (read_yaml_config env_without_email)
       (load_settings env_without_email) = Inl (ValueError m)"
    "main env_without_email fresh_process = (Raises (ValueError m), fresh_process)"
    by blast
  then have "main env_without_email fresh_process =
     (Raises (ValueError (''The '' @ [CHR 0x27] @ ''email'' @ [CHR 0x27] @
        '' key is missing from the YAML file, Originating error on line 249 in <__main__>, Error on line414 in <__main__>'')),
      fresh_process)"
    unfolding r l populate_without_email by simp
  with r k show ?thesis by (intro conjI)
qed

subsection \<open>At most one watcher per name\<close>

text \<open>
  Claim C7. No two live threads carry the same name, so no container name has two
  watcher threads: the substring check guards every call of \<open>start_function_thread\<close>,
  and a name that is missing from the rendering belongs to no live thread. The property
  holds after every pass, whether it returns or raises, and after any number of passes
  run one after the other, threads being free to end in between the checks.
\<close>

theorem one_watcher_per_name:
  "starts_at_most_one start \<Longrightarrow> distinct (map t_name (live w)) \<Longrightarrow>
   distinct (map t_name (live (snd (create_docker_log_threads start dcs w)))) \<and>
   distinct (map t_name (live (run_passes start passes w)))"
proof (rule conjI)
  assume ok: "starts_at_most_one start" and d: "distinct (map t_name (live w))"
  show "distinct (map t_name (live (snd (create_docker_log_threads start dcs w))))"
    using ok d by (rule pass_names_distinct)
  from d show "distinct (map t_name (live (run_passes start passes w)))"
  proof (induction passes arbitrary: w)
    case Nil
    then show ?case by simp
  next
    case (Cons p ps)
    obtain r w1 where step: "create_docker_log_threads start p w = (r, w1)"
      by (cases "create_docker_log_threads start p w")
    have d1: "distinct (map t_name (live w1))"
      using pass_names_distinct [OF ok Cons.prems, of p] step by simp
    show ?case
    proof (cases r)
      case (Inl e)
      with step d1 show ?thesis by simp
    next
      case (Inr trk)
      with step Cons.IH [OF d1] show ?thesis by simp
    qed
  qed
qed

theorem one_watcher_per_name_witness:
  "starts_at_most_one (start_ok :: unit starter) \<and>
   distinct (map t_name (live fresh_world)) \<and>
   map t_name (live (run_passes start_ok [two_containers, two_containers] fresh_world)) =
     [''MainThread'', ''web_thread'', ''db_thread''] \<and>
   distinct (map t_name (live (run_passes start_ok [two_containers, two_containers] fresh_world)))"
proof -
  have a: "starts_at_most_one (start_ok :: unit starter)"
    by (rule start_ok_at_most_one)
  have b: "distinct (map t_name (live fresh_world))"
    by (simp add: fresh_world_def)
  have c: "map t_name (live (run_passes start_ok [two_containers, two_containers] fresh_world)) =
     [''MainThread'', ''web_thread'', ''db_thread'']"
    by code_simp
  have d: "distinct (map t_name (live (run_passes start_ok [two_containers, two_containers] fresh_world)))"
    using one_watcher_per_name [OF a b, of two_containers "[two_containers, two_containers]"]
    by (rule conjunct2)
  from a b c d show ?thesis by (intro conjI)
qed

subsection \<open>What is forwarded for a line\<close>

text \<open>
  For the line of two spaces, \<open>hi\<close> and a newline the container logger gets \<open>hi\<close>;
  trimming the trailing whitespace only would keep the two leading spaces.
\<close>

theorem strip_both_ends_counterexample:
  "decode_utf8 [0x20, 0x20, 0x68, 0x69, 0x0A] = Some [0x20, 0x20, 0x68, 0x69, 0x0A] \<and>
   forward_line invalid_start [0x20, 0x20, 0x68, 0x69, 0x0A] [] = Inr [[0x68, 0x69]] \<and>
   trailing_trimmed [0x20, 0x20, 0x68, 0x69, 0x0A] = [0x20, 0x20, 0x68, 0x69] \<and>
   forward_line invalid_start [0x20, 0x20, 0x68, 0x69, 0x0A] [] \<noteq>
     Inr [trailing_trimmed [0x20, 0x20, 0x68, 0x69, 0x0A]]"
proof -
  have d: "decode_utf8 [0x20, 0x20, 0x68, 0x69, 0x0A] = Some [0x20, 0x20, 0x68, 0x69, 0x0A]"
    by (simp add: decode_utf8.simps utf8_step_def)
  have s: "py_strip [0x20, 0x20, 0x68, 0x69, 0x0A] = [0x68, 0x69]"
    by (simp add: py_strip_def py_isspace_def)
  have t: "trailing_trimmed [0x20, 0x20, 0x68, 0x69, 0x0A] = [0x20, 0x20, 0x68, 0x69]"
    by (simp add: trailing_trimmed_def py_isspace_def)
  have f: "forward_line invalid_start [0x20, 0x20, 0x68, 0x69, 0x0A] [] = Inr [[0x68, 0x69]]"
    by (simp add: forward_line_def d s)
  have n: "forward_line invalid_start [0x20, 0x20, 0x68, 0x69, 0x0A] [] \<noteq>
     Inr [trailing_trimmed [0x20, 0x20, 0x68, 0x69, 0x0A]]"
    unfolding f t by simp
  from d f t n show ?thesis by (intro conjI)
qed

text \<open>
  Claim C8, as amended. The source calls \<open>strip()\<close>, which trims both ends: the text
  forwarded is the decoded line without its leading and its trailing whitespace, that
  is, the decoded line is whitespace, then the forwarded text, then whitespace, and the
  forwarded text neither starts nor ends with whitespace. The counterexample is a line
  with two leading spaces; \<open>trailing_trimmed\<close> follows the claim's words.
\<close>

theorem forwarded_line_is_stripped:
  "decode_utf8 line = Some decoded \<longrightarrow>
     forward_line reason line container_log = Inr (container_log @ [py_strip decoded]) \<and>
     (\<exists>before after.
        decoded = before @ py_strip decoded @ after \<and>
        (\<forall>c \<in> set before. py_isspace c) \<and> (\<forall>c \<in> set after. py_isspace c) \<and>
        (py_strip decoded \<noteq> [] \<longrightarrow>
           \<not> py_isspace (hd (py_strip decoded)) \<and> \<not> py_isspace (last (py_strip decoded))))"
proof (intro impI conjI)
  assume d: "decode_utf8 line = Some decoded"
  show "forward_line reason line container_log = Inr (container_log @ [py_strip decoded])"
    by (simp add: forward_line_def d)
  show "\<exists>before after.
        decoded = before @ py_strip decoded @ after \<and>
        (\<forall>c \<in> set before. py_isspace c) \<and> (\<forall>c \<in> set after. py_isspace c) \<and>
        (py_strip decoded \<noteq> [] \<longrightarrow>
           \<not> py_isspace (hd (py_strip decoded)) \<and> \<not> py_isspace (last (py_strip decoded)))"
    by (rule strip_parts [of decoded]) blast
qed

theorem forwarded_line_is_stripped_witness:
  "decode_utf8 [0x09, 0x68, 0x20, 0x69, 0x0D, 0x0A] = Some [0x09, 0x68, 0x20, 0x69, 0x0D, 0x0A] \<and>
   forward_line invalid_start [0x09, 0x68, 0x20, 0x69, 0x0D, 0x0A] [] = Inr [[0x68, 0x20, 0x69]] \<and>
   py_strip [0x09, 0x68, 0x20, 0x69, 0x0D, 0x0A] = [0x68, 0x20, 0x69]"
proof -
  have d: "decode_utf8 [0x09, 0x68, 0x20, 0x69, 0x0D, 0x0A] = Some [0x09, 0x68, 0x20, 0x69, 0x0D, 0x0A]"
    by (simp add: decode_utf8.simps utf8_step_def)
  have s: "py_strip [0x09, 0x68, 0x20, 0x69, 0x0D, 0x0A] = [0x68, 0x20, 0x69]"
    by (simp add: py_strip_def py_isspace_def)
  have f: "forward_line invalid_start [0x09, 0x68, 0x20, 0x69, 0x0D, 0x0A] [] = Inr [[0x68, 0x20, 0x69]]"
    using forwarded_line_is_stripped
      [where line = "[0x09, 0x68, 0x20, 0x69, 0x0D, 0x0A]" and
        decoded = "[0x09, 0x68, 0x20, 0x69, 0x0D, 0x0A]" and reason = invalid_start and
        container_log = "[]"] d
    unfolding s by simp
  from d f s show ?thesis by (intro conjI)
qed

subsection \<open>The liveness check is a substring test\<close>

text \<open>
  Claim C9. The check \<open>thread_name not in str(threading.enumerate())\<close> is a substring
  test on the rendering of all live threads: wherever the derived name occurs in that
  text, the iteration starts nothing and records nothing. In particular, when the derived
  name of a container is a substring of the name of some live thread (the watcher of
  another container, say), the container is skipped although it has no watcher of its
  own. The witness is the pair \<open>myapp\<close>, \<open>app\<close>.
\<close>

theorem substring_of_other_watcher_skips:
  "((\<exists>before after. str_threads (live w) = before @ thread_name_of (fst dc) @ after) \<longrightarrow>
     fst (watch_container start dc trk w) = Inr trk \<and>
     live (snd (watch_container start dc trk w)) = live w) \<and>
   (t \<in> set (live w) \<and> sublist (thread_name_of (fst dc)) (t_name t) \<longrightarrow>
     py_in (thread_name_of (fst dc)) (str_threads (live w)) \<and>
     fst (watch_container start dc trk w) = Inr trk \<and>
     live (snd (watch_container start dc trk w)) = live w)"
proof (intro conjI impI)
  assume "\<exists>before after. str_threads (live w) = before @ thread_name_of (fst dc) @ after"
  then have act: "py_in (thread_name_of (fst dc)) (str_threads (live w))"
    by (simp add: py_in_def sublist_def)
  show "fst (watch_container start dc trk w) = Inr trk"
    by (simp add: watch_container_active [OF act])
  show "live (snd (watch_container start dc trk w)) = live w"
    by (simp add: watch_container_active [OF act])
next
  assume a: "t \<in> set (live w) \<and> sublist (thread_name_of (fst dc)) (t_name t)"
  then have "sublist (thread_name_of (fst dc)) (str_threads (live w))"
    using name_in_str_threads [of t "live w"] sublist_order.order.trans by blast
  then show act: "py_in (thread_name_of (fst dc)) (str_threads (live w))"
    by (simp add: py_in_def)
  show "fst (watch_container start dc trk w) = Inr trk"
    by (simp add: watch_container_active [OF act])
  show "live (snd (watch_container start dc trk w)) = live w"
    by (simp add: watch_container_active [OF act])
qed

theorem substring_of_other_watcher_skips_witness:
  "live live_myapp ! 1 \<in> set (live live_myapp) \<and>
   t_name (live live_myapp ! 1) = thread_name_of ''myapp'' \<and>
   sublist (thread_name_of ''app'') (thread_name_of ''myapp'') \<and>
   thread_name_of ''app'' \<notin> t_name ` set (live live_myapp) \<and>
   fst (watch_container start_ok (''app'', ()) [] live_myapp) = Inr [] \<and>
   live (snd (watch_container start_ok (''app'', ()) [] live_myapp)) = live live_myapp"
proof -
  have m: "live live_myapp ! 1 \<in> set (live live_myapp)"
    by (simp add: live_myapp_def)
  have n: "t_name (live live_myapp ! 1) = thread_name_of ''myapp''"
    by (simp add: live_myapp_def thread_name_of_def replace_spaces_def)
  have s: "sublist (thread_name_of ''app'') (thread_name_of ''myapp'')"
    by code_simp
  have i: "thread_name_of ''app'' \<notin> t_name ` set (live live_myapp)"
    by (simp add: live_myapp_def thread_name_of_def replace_spaces_def main_thread_def)
  show ?thesis
    using m n s i
      substring_of_other_watcher_skips
        [where t = "live live_myapp ! 1" and w = live_myapp and dc = "(''app'', ())" and
          start = start_ok and trk = "[]"]
    by simp
qed

subsection \<open>The derived watcher name\<close>

text \<open>
  Claim C10. The watcher name is the container name with every space turned into an
  underscore, followed by \<open>_thread\<close>. The map is not injective: two container names
  that differ only in spaces against underscores get the same watcher name, and in a pass
  over such a pair only the first gets a thread and a \<open>Started\<close> entry. Every entry a
  pass returns carries the normalised name \<open>replace_spaces name\<close>, not the configured
  one.
\<close>

theorem watcher_name_not_injective:
  "thread_name_of c = map (\<lambda>x. if x = CHR '' '' then CHR ''_'' else x) c @ ''_thread'' \<and>
   \<not> inj thread_name_of \<and>
   (thread_name_of c1 = thread_name_of c2 \<and>
    \<not> py_in (thread_name_of c1) (str_threads (live w)) \<and>
    start (replace_spaces c1) l1 (thread_name_of c1) (live w) = (None, ts) \<and>
    py_in (thread_name_of c1) (str_threads ts) \<longrightarrow>
      fst (create_docker_log_threads start [(c1, l1), (c2, l2)] w) =
        Inr [status_entry ''Started'' (replace_spaces c1)] \<and>
      live (snd (create_docker_log_threads start [(c1, l1), (c2, l2)] w)) = ts) \<and>
   (fst (create_docker_log_threads start dcs w) = Inr trk \<longrightarrow>
      (\<forall>e \<in> set trk. \<exists>dc \<in> set dcs.
         e = status_entry ''Started'' (replace_spaces (fst dc)) \<or>
         e = status_entry ''Failed'' (replace_spaces (fst dc))))"
proof (intro conjI impI)
  show "thread_name_of c = map (\<lambda>x. if x = CHR '' '' then CHR ''_'' else x) c @ ''_thread''"
    by (simp add: thread_name_of_def replace_spaces_def)
  show "\<not> inj thread_name_of"
  proof
    assume "inj thread_name_of"
    moreover have "thread_name_of ''a b'' = thread_name_of ''a_b''"
      by (simp add: thread_name_of_def replace_spaces_def)
    ultimately have "''a b'' = ''a_b''"
      by (rule injD)
    then show False by simp
  qed
next
  assume a: "thread_name_of c1 = thread_name_of c2 \<and>
    \<not> py_in (thread_name_of c1) (str_threads (live w)) \<and>
    start (replace_spaces c1) l1 (thread_name_of c1) (live w) = (None, ts) \<and>
    py_in (thread_name_of c1) (str_threads ts)"
  let ?w0 = "log_call DEBUG ''Creating individual threads for each docker container'' w"
  from a have e: "thread_name_of c1 = thread_name_of c2"
    and a1: "\<not> py_in (thread_name_of c1) (str_threads (live w))"
    and a2: "start (replace_spaces c1) l1 (thread_name_of c1) (live w) = (None, ts)"
    and a3: "py_in (thread_name_of c1) (str_threads ts)"
    by blast+
  have n: "\<not> py_in (thread_name_of (fst (c1, l1))) (str_threads (live ?w0))"
    using a1 by simp
  have s: "start (replace_spaces (fst (c1, l1))) (snd (c1, l1)) (thread_name_of (fst (c1, l1)))
             (live ?w0) = (None, ts)"
    using a2 by simp
  have p: "py_in (thread_name_of (fst (c1, l1))) (str_threads ts)"
    using a3 by simp
  define w1 where "w1 = snd (watch_container start (c1, l1) [] ?w0)"
  have first: "watch_container start (c1, l1) [] ?w0 =
      (Inr [status_entry ''Started'' (replace_spaces c1)], w1)"
    unfolding w1_def
    by (simp add: watch_container_started [where start = start and trk = "[]", OF n s p])
  have lv: "live w1 = ts"
    unfolding w1_def
    by (simp add: watch_container_started [where start = start and trk = "[]", OF n s p])
  have act: "py_in (thread_name_of (fst (c2, l2))) (str_threads (live w1))"
    using a3 e lv by simp
  note second = watch_container_active
    [where start = start and trk = "[status_entry ''Started'' (replace_spaces c1)]", OF act]
  show "fst (create_docker_log_threads start [(c1, l1), (c2, l2)] w) =
        Inr [status_entry ''Started'' (replace_spaces c1)]"
    by (simp add: create_docker_log_threads_def first second)
  show "live (snd (create_docker_log_threads start [(c1, l1), (c2, l2)] w)) = ts"
    by (simp add: create_docker_log_threads_def first second lv)
next
  assume "fst (create_docker_log_threads start dcs w) = Inr trk"
  then have "fst (watch_all start dcs []
      (log_call DEBUG ''Creating individual threads for each docker container'' w)) = Inr trk"
    by (simp add: create_docker_log_threads_def)
  from watch_all_entries [OF this]
  show "\<forall>e \<in> set trk. \<exists>dc \<in> set dcs.
         e = status_entry ''Started'' (replace_spaces (fst dc)) \<or>
         e = status_entry ''Failed'' (replace_spaces (fst dc))"
    by simp
qed

theorem watcher_name_not_injective_witness:
  "''my app'' \<noteq> ''my_app'' \<and>
   thread_name_of ''my app'' = ''my_app_thread'' \<and>
   thread_name_of ''my app'' = thread_name_of ''my_app'' \<and>
   \<not> py_in (thread_name_of ''my app'') (str_threads (live fresh_world)) \<and>
   fst (create_docker_log_threads start_ok spaced_pair fresh_world) =
     Inr [[[(''Status'', ''Started''), (''container_name'', ''my_app'')]]] \<and>
   map t_name (live (snd (create_docker_log_threads start_ok spaced_pair fresh_world))) =
     [''MainThread'', ''my_app_thread'']"
proof -
  have ne: "''my app'' \<noteq> ''my_app''" by simp
  have tn: "thread_name_of ''my app'' = ''my_app_thread''"
    by (simp add: thread_name_of_def replace_spaces_def)
  have eq: "thread_name_of ''my app'' = thread_name_of ''my_app''"
    by (simp add: thread_name_of_def replace_spaces_def)
  have n: "\<not> py_in (thread_name_of ''my app'') (str_threads (live fresh_world))"
    by code_simp
  have s: "start_ok (replace_spaces ''my app'') () (thread_name_of ''my app'') (live fresh_world) =
      (None, [main_thread,
        \<lparr>t_class = ''Thread'', t_name = ''my_app_thread'', t_daemon = True, t_ident = Some 142\<rparr>])"
    by (simp add: start_ok_def fresh_world_def tn)
  have p: "py_in (thread_name_of ''my app'') (str_threads [main_thread,
        \<lparr>t_class = ''Thread'', t_name = ''my_app_thread'', t_daemon = True, t_ident = Some 142\<rparr>])"
    by code_simp
  have rs: "replace_spaces ''my app'' = ''my_app''"
    by (simp add: replace_spaces_def)
  from watcher_name_not_injective
    [where ?c1.0 = "''my app''" and ?c2.0 = "''my_app''" and w = fresh_world and start = start_ok and
      ?l1.0 = "()" and ?l2.0 = "()" and
      ts = "[main_thread,
        \<lparr>t_class = ''Thread'', t_name = ''my_app_thread'', t_daemon = True, t_ident = Some 142\<rparr>]"]
    eq n s p
  have "fst (create_docker_log_threads start_ok spaced_pair fresh_world) =
          Inr [status_entry ''Started'' (replace_spaces ''my app'')] \<and>
        live (snd (create_docker_log_threads start_ok spaced_pair fresh_world)) =
          [main_thread,
           \<lparr>t_class = ''Thread'', t_name = ''my_app_thread'', t_daemon = True, t_ident = Some 142\<rparr>]"
    unfolding spaced_pair_def by blast
  then show ?thesis
    using ne tn eq n by (simp add: rs status_entry_def main_thread_def)
qed

end
